theory Spec2Isabelle
  imports Complex_Main
begin

section \<open>Values handled by the script\<close>

text \<open>
  The script \<^verbatim>\<open>scripts/run_housekeeper_self_check.py\<close> polls
  \<^verbatim>\<open>/housekeeper/health\<close>, then calls \<^verbatim>\<open>/housekeeper/self-check\<close> once and turns
  the answer into printed lines and an exit status.

  Python floats (the two durations of the command line, and JSON numbers with a fraction)
  are only passed around and tested against zero, never computed with. A Python string
  is the list of the bytes of its UTF-8 encoding; a lone surrogate, which has none, is the
  three bytes that \<^verbatim>\<open>surrogatepass\<close> gives it.
\<close>

datatype pyfloat = Finite real | PosInf | NegInf | NaN

text \<open>
  What \<^verbatim>\<open>json.loads\<close> returns. A Python \<^verbatim>\<open>dict\<close> is an association list read
  with \<open>map_of\<close>.
\<close>

datatype json =
    JNull
  | JBool bool
  | JInt int
  | JFloat pyfloat
  | JStr string
  | JList "json list"
  | JObject "(string \<times> json) list"

type_synonym pydict = "(string \<times> json) list"

text \<open>\<^verbatim>\<open>d.get(key)\<close>: the value stored under the key, \<^verbatim>\<open>None\<close> when there is none.\<close>

definition dict_get :: "pydict \<Rightarrow> string \<Rightarrow> json" where
  "dict_get d k = (case map_of d k of None \<Rightarrow> JNull | Some v \<Rightarrow> v)"

text \<open>Python's truth value of an object, as \<^verbatim>\<open>or\<close> and \<^verbatim>\<open>and\<close> test it.\<close>

fun truthy :: "json \<Rightarrow> bool" where
  "truthy JNull = False"
| "truthy (JBool b) = b"
| "truthy (JInt i) = (i \<noteq> 0)"
| "truthy (JFloat f) = (f \<noteq> Finite 0)"
| "truthy (JStr s) = (s \<noteq> [])"
| "truthy (JList xs) = (xs \<noteq> [])"
| "truthy (JObject kvs) = (kvs \<noteq> [])"

text \<open>\<^verbatim>\<open>a or b\<close> on two objects.\<close>

definition py_or :: "json \<Rightarrow> json \<Rightarrow> json" where
  "py_or a b = (if truthy a then a else b)"

text \<open>Decimal digits of an integer, as \<^verbatim>\<open>str\<close> and an f-string print it.\<close>

function str_nat :: "nat \<Rightarrow> string" where
  "str_nat n =
     (if n < 10 then [''0123456789'' ! n]
      else str_nat (n div 10) @ [''0123456789'' ! (n mod 10)])"
  by pat_completeness auto
termination
  by (relation "measure id") auto

declare str_nat.simps [simp del]

definition str_int :: "int \<Rightarrow> string" where
  "str_int i = (if i < 0 then CHR ''-'' # str_nat (nat (- i)) else str_nat (nat i))"

section \<open>The world outside the script\<close>

text \<open>
  Exceptions that reach the script from the library. \<open>HTTPError code body\<close> is the one
  \<^verbatim>\<open>request_json\<close> catches and \<open>JSONDecodeError\<close> the one \<^verbatim>\<open>parse_json_or_none\<close>
  catches; nothing in the script catches any of the others: \<^verbatim>\<open>URLError\<close> for a
  refused connection or a failed name lookup, a socket timeout, \<^verbatim>\<open>RecursionError\<close> (of
  \<^verbatim>\<open>json.loads\<close> on deep nesting, or of \<^verbatim>\<open>json.dumps\<close>), \<^verbatim>\<open>UnicodeEncodeError\<close> (of
  \<^verbatim>\<open>print\<close> on text the stream cannot encode), a plain \<^verbatim>\<open>ValueError\<close> (of
  \<^verbatim>\<open>json.loads\<close> on an integer of more than 4300 digits, of \<^verbatim>\<open>time.sleep\<close>, of the
  library on a malformed URL), \<^verbatim>\<open>OverflowError\<close>, \<^verbatim>\<open>OSError\<close>.
\<close>

datatype py_exc =
    HTTPError int string
  | URLError string
  | SocketTimeout
  | JSONDecodeError
  | RecursionError
  | UnicodeEncodeError
  | ValueError string
  | OverflowError string
  | OSError string

text \<open>How a computation stops early: \<^verbatim>\<open>sys.exit(n)\<close>, or an exception nobody catches.\<close>

datatype stop = SystemExit int | Raised py_exc

text \<open>
  The status the operating system sees: the argument of \<^verbatim>\<open>sys.exit\<close>, and 1 when
  the interpreter ends on an uncaught exception (after printing its traceback).
\<close>

fun exit_status :: "stop \<Rightarrow> int" where
  "exit_status (SystemExit n) = n"
| "exit_status (Raised e) = 1"

datatype request =
  Request (req_method: string) (req_url: string) (req_headers: "(string \<times> string) list")
    (req_timeout: pyfloat)

text \<open>
  What a run does that can be observed from outside, in order: \<open>Urlopen req\<close> when
  \<^verbatim>\<open>request_json\<close> sets out to send \<open>req\<close>, \<open>Sleep d\<close> when \<^verbatim>\<open>time.sleep(d)\<close> has
  returned, \<open>Stdout s\<close> and \<open>Stderr s\<close> when \<^verbatim>\<open>print\<close> has written \<open>s\<close> and a newline
  to the stream.
\<close>

datatype event =
    Urlopen request
  | Sleep pyfloat
  | Stdout string
  | Stderr string

type_synonym trace = "event list"

text \<open>
  The library and the network are parameters of the model, and each call that can raise
  has the exception among its outcomes:
  \<^item> \<open>urlopen w i req\<close> is the outcome of lines 25 to 32 of \<^verbatim>\<open>request_json\<close>, or of
    the read of line 34, in the call that is the \<open>i\<close>-th of the run (counted from 0)
    and sends \<open>req\<close>: a status and the decoded body, or the exception raised while the
    request is built, opened or read;
  \<^item> \<open>sleep_raises w d\<close> is the exception \<^verbatim>\<open>time.sleep(d)\<close> raises, if any (it
    rejects a negative length);
  \<^item> \<open>environ\<close> is \<^verbatim>\<open>os.environ\<close>;
  \<^item> \<open>json_loads w raw\<close> is the value \<^verbatim>\<open>json.loads(raw)\<close> returns, or the exception it
    raises: \<open>JSONDecodeError\<close> on text that is no JSON, but also \<open>RecursionError\<close> or a
    plain \<open>ValueError\<close>;
  \<^item> \<open>json_dumps w v\<close> is the text \<^verbatim>\<open>json.dumps(v, ensure_ascii=False, indent=2)\<close>
    returns, or the exception it raises;
  \<^item> \<open>stdout_raises w s\<close> is the exception \<^verbatim>\<open>print(s)\<close> raises on standard output,
    if any, before anything is written: \<open>UnicodeEncodeError\<close> when the stream cannot
    encode \<open>s\<close>. Standard error encodes with \<^verbatim>\<open>backslashreplace\<close> and takes every
    string;
  \<^item> \<open>py_repr w v\<close> is \<^verbatim>\<open>str(v)\<close> for a float, a list or a dict.
\<close>

record world =
  urlopen :: "nat \<Rightarrow> request \<Rightarrow> py_exc + int \<times> string"
  sleep_raises :: "pyfloat \<Rightarrow> py_exc option"
  environ :: "string \<Rightarrow> string option"
  json_loads :: "string \<Rightarrow> py_exc + json"
  json_dumps :: "json \<Rightarrow> py_exc + string"
  stdout_raises :: "string \<Rightarrow> py_exc option"
  py_repr :: "json \<Rightarrow> string"

text \<open>\<^verbatim>\<open>str(v)\<close>.\<close>

fun py_str :: "world \<Rightarrow> json \<Rightarrow> string" where
  "py_str w (JStr s) = s"
| "py_str w JNull = ''None''"
| "py_str w (JBool b) = (if b then ''True'' else ''False'')"
| "py_str w (JInt i) = str_int i"
| "py_str w v = py_repr w v"

text \<open>The namespace \<^verbatim>\<open>parse_args\<close> returns.\<close>

record args =
  endpoint :: string
  token :: string
  health_retries :: int
  health_timeout :: pyfloat
  retry_delay :: pyfloat

section \<open>The functions of the script\<close>

text \<open>The number of calls of \<^verbatim>\<open>request_json\<close> made so far.\<close>

fun is_urlopen :: "event \<Rightarrow> bool" where
  "is_urlopen (Urlopen r) = True"
| "is_urlopen e = False"

definition n_requests :: "trace \<Rightarrow> nat" where
  "n_requests tr = length (filter is_urlopen tr)"

text \<open>
  \<^verbatim>\<open>request_json\<close>: the response's status and body; an \<^verbatim>\<open>HTTPError\<close> is caught
  and gives its code and body; any other exception is not caught.
\<close>

fun caught :: "py_exc + int \<times> string \<Rightarrow> stop + int \<times> string" where
  "caught (Inr (status, raw)) = Inr (status, raw)"
| "caught (Inl (HTTPError code raw)) = Inr (code, raw)"
| "caught (Inl e) = Inl (Raised e)"

definition request_json ::
  "world \<Rightarrow> string \<Rightarrow> string \<Rightarrow> (string \<times> string) list \<Rightarrow> pyfloat \<Rightarrow> trace
    \<Rightarrow> (stop + int \<times> string) \<times> trace" where
  "request_json w meth u hdrs tmo tr =
     (let request = Request meth u hdrs tmo
      in (caught (urlopen w (n_requests tr) request), tr @ [Urlopen request]))"

text \<open>
  \<^verbatim>\<open>parse_json_or_none\<close>: the dict, \<^verbatim>\<open>None\<close> for any other value and for a
  \<^verbatim>\<open>JSONDecodeError\<close>; any other exception of \<^verbatim>\<open>json.loads\<close> is not caught.
\<close>

fun decoded :: "py_exc + json \<Rightarrow> stop + pydict option" where
  "decoded (Inr (JObject d)) = Inr (Some d)"
| "decoded (Inr v) = Inr None"
| "decoded (Inl JSONDecodeError) = Inr None"
| "decoded (Inl e) = Inl (Raised e)"

definition parse_json_or_none :: "world \<Rightarrow> string \<Rightarrow> stop + pydict option" where
  "parse_json_or_none w raw = decoded (json_loads w raw)"

text \<open>\<^verbatim>\<open>time.sleep(delay)\<close>.\<close>

definition sleep :: "world \<Rightarrow> pyfloat \<Rightarrow> trace \<Rightarrow> (stop + unit) \<times> trace" where
  "sleep w d tr =
     (case sleep_raises w d of
        Some e \<Rightarrow> (Inl (Raised e), tr)
      | None \<Rightarrow> (Inr (), tr @ [Sleep d]))"

text \<open>\<^verbatim>\<open>print(s)\<close> on standard output.\<close>

definition print_stdout :: "world \<Rightarrow> string \<Rightarrow> trace \<Rightarrow> (stop + unit) \<times> trace" where
  "print_stdout w s tr =
     (case stdout_raises w s of
        Some e \<Rightarrow> (Inl (Raised e), tr)
      | None \<Rightarrow> (Inr (), tr @ [Stdout s]))"

text \<open>
  The test of line 51, \<^verbatim>\<open>status == 200 and body and body.get("ok") is True\<close>, on
  the optional dict \<^verbatim>\<open>body\<close>.
\<close>

definition health_ok :: "int \<Rightarrow> pydict option \<Rightarrow> bool" where
  "health_ok status body =
     (status = 200 \<and>
      (case body of None \<Rightarrow> False | Some d \<Rightarrow> d \<noteq> [] \<and> dict_get d ''ok'' = JBool True))"

text \<open>
  The \<^verbatim>\<open>for\<close> loop of \<^verbatim>\<open>ensure_health\<close> over the attempts still to make. It ends
  by the \<^verbatim>\<open>return\<close> of line 52, by running out of attempts, or by an exception of
  line 49, 50 or 54.
\<close>

datatype loop_end = Returned | Exhausted

fun health_loop ::
  "world \<Rightarrow> string \<Rightarrow> int \<Rightarrow> pyfloat \<Rightarrow> pyfloat \<Rightarrow> (string \<times> string) list \<Rightarrow> int list \<Rightarrow> trace
    \<Rightarrow> (stop + loop_end) \<times> trace" where
  "health_loop w u retries tmo delay hdrs [] tr = (Inr Exhausted, tr)"
| "health_loop w u retries tmo delay hdrs (attempt # rest) tr =
     (case request_json w ''GET'' u hdrs tmo tr of
        (Inl s, tr1) \<Rightarrow> (Inl s, tr1)
      | (Inr (status, raw), tr1) \<Rightarrow>
          (case parse_json_or_none w raw of
             Inl s \<Rightarrow> (Inl s, tr1)
           | Inr body \<Rightarrow>
               if health_ok status body then (Inr Returned, tr1)
               else if attempt < retries then
                 (case sleep w delay tr1 of
                    (Inl s, tr2) \<Rightarrow> (Inl s, tr2)
                  | (Inr _, tr2) \<Rightarrow> health_loop w u retries tmo delay hdrs rest tr2)
               else health_loop w u retries tmo delay hdrs rest tr1))"

text \<open>\<^verbatim>\<open>ensure_health\<close>; the attempts are \<^verbatim>\<open>range(1, retries + 1)\<close>.\<close>

definition ensure_health ::
  "world \<Rightarrow> string \<Rightarrow> int \<Rightarrow> pyfloat \<Rightarrow> pyfloat \<Rightarrow> (string \<times> string) list \<Rightarrow> trace
    \<Rightarrow> (stop + unit) \<times> trace" where
  "ensure_health w base_url retries tmo delay hdrs tr =
     (case health_loop w (base_url @ ''/housekeeper/health'') retries tmo delay hdrs
             [1..retries] tr of
        (Inl s, tr1) \<Rightarrow> (Inl s, tr1)
      | (Inr Returned, tr1) \<Rightarrow> (Inr (), tr1)
      | (Inr Exhausted, tr1) \<Rightarrow>
          (Inl (SystemExit 10), tr1 @ [Stderr ''health check failed: runtime not ready'']))"

text \<open>\<^verbatim>\<open>args.endpoint.rstrip("/")\<close>.\<close>

definition rstrip_slash :: "string \<Rightarrow> string" where
  "rstrip_slash s = rev (dropWhile (\<lambda>c. c = CHR ''/'') (rev s))"

definition base_url_of :: "args \<Rightarrow> string" where
  "base_url_of a = rstrip_slash (endpoint a)"

text \<open>Lines 63 to 67 of \<^verbatim>\<open>main\<close>: the token and the headers built from it.\<close>

definition token_of :: "world \<Rightarrow> args \<Rightarrow> string" where
  "token_of w a =
     (if token a \<noteq> [] then token a
      else (case environ w ''BLAB_HOUSEKEEPER_TOKEN'' of None \<Rightarrow> [] | Some v \<Rightarrow> v))"

definition headers_of :: "world \<Rightarrow> args \<Rightarrow> (string \<times> string) list" where
  "headers_of w a =
     (if token_of w a \<noteq> [] then [(''Authorization'', ''Bearer '' @ token_of w a)] else [])"

text \<open>
  Lines 61 to 71 of \<^verbatim>\<open>main\<close>: the health phase, then the one request to the
  self-check endpoint. A run starts with nothing done: the empty trace.
\<close>

definition health_phase :: "world \<Rightarrow> args \<Rightarrow> (stop + unit) \<times> trace" where
  "health_phase w a =
     ensure_health w (base_url_of a) (health_retries a) (health_timeout a) (retry_delay a)
       (headers_of w a) []"

definition self_check_call :: "world \<Rightarrow> args \<Rightarrow> (stop + int \<times> string) \<times> trace" where
  "self_check_call w a =
     (case health_phase w a of
        (Inl s, tr) \<Rightarrow> (Inl s, tr)
      | (Inr _, tr) \<Rightarrow>
          request_json w ''GET'' (base_url_of a @ ''/housekeeper/self-check'')
            (headers_of w a) (Finite 20) tr)"

text \<open>
  Lines 88 to 94: the entries of \<^verbatim>\<open>checks\<close> that are dicts whose \<^verbatim>\<open>passed\<close> is
  not \<^verbatim>\<open>True\<close>, and the line printed for each.
\<close>

fun failed :: "json list \<Rightarrow> pydict list" where
  "failed [] = []"
| "failed (JObject c # cs) =
     (if dict_get c ''passed'' \<noteq> JBool True then c # failed cs else failed cs)"
| "failed (c # cs) = failed cs"

definition failed_line :: "world \<Rightarrow> pydict \<Rightarrow> string" where
  "failed_line w item =
     (let name = py_str w (py_or (dict_get item ''name'') (JStr ''unknown''));
          detail = py_str w (py_or (dict_get item ''detail'') (JStr ''''))
      in ''[FAILED] '' @ name @ '': '' @ detail)"

text \<open>
  Lines 81 to 96 of \<^verbatim>\<open>main\<close>, once the report is printed: the status gate, the
  \<^verbatim>\<open>ok\<close> gate and the failing checks.
\<close>

definition gates :: "world \<Rightarrow> int \<Rightarrow> pydict \<Rightarrow> trace \<Rightarrow> stop \<times> trace" where
  "gates w status body tr =
     (if status \<ge> 400 then
        (SystemExit 20, tr @ [Stderr (''self-check endpoint returned HTTP '' @ str_int status)])
      else if dict_get body ''ok'' = JBool True then (SystemExit 0, tr)
      else
        (case dict_get body ''checks'' of
           JList checks \<Rightarrow>
             (SystemExit 1, tr @ map (\<lambda>item. Stderr (failed_line w item)) (failed checks))
         | _ \<Rightarrow> (SystemExit 1, tr)))"

text \<open>
  Lines 72 to 96 of \<^verbatim>\<open>main\<close>: from the status and body to the exit. Line 72 can
  raise in \<^verbatim>\<open>json.loads\<close>, line 75 in \<^verbatim>\<open>print\<close>, line 79 in \<^verbatim>\<open>json.dumps\<close> and
  in \<^verbatim>\<open>print\<close>.
\<close>

definition verdict :: "world \<Rightarrow> int \<Rightarrow> string \<Rightarrow> trace \<Rightarrow> stop \<times> trace" where
  "verdict w status raw tr =
     (case parse_json_or_none w raw of
        Inl s \<Rightarrow> (s, tr)
      | Inr None \<Rightarrow>
          (case print_stdout w raw tr of
             (Inl s, tr1) \<Rightarrow> (s, tr1)
           | (Inr _, tr1) \<Rightarrow>
               (SystemExit 20, tr1 @ [Stderr ''self-check response is not valid JSON'']))
      | Inr (Some body) \<Rightarrow>
          (case json_dumps w (JObject body) of
             Inl e \<Rightarrow> (Raised e, tr)
           | Inr report \<Rightarrow>
               (case print_stdout w report tr of
                  (Inl s, tr1) \<Rightarrow> (s, tr1)
                | (Inr _, tr1) \<Rightarrow> gates w status body tr1)))"

text \<open>\<^verbatim>\<open>main\<close>: how the run stops, and everything it did.\<close>

definition main :: "world \<Rightarrow> args \<Rightarrow> stop \<times> trace" where
  "main w a =
     (case self_check_call w a of
        (Inl s, tr) \<Rightarrow> (s, tr)
      | (Inr (status, raw), tr) \<Rightarrow> verdict w status raw tr)"

section \<open>Vocabulary of the properties\<close>

text \<open>The two requests a run can send.\<close>

definition health_request :: "world \<Rightarrow> args \<Rightarrow> request" where
  "health_request w a =
     Request ''GET'' (base_url_of a @ ''/housekeeper/health'') (headers_of w a) (health_timeout a)"

definition self_check_request :: "world \<Rightarrow> args \<Rightarrow> request" where
  "self_check_request w a =
     Request ''GET'' (base_url_of a @ ''/housekeeper/self-check'') (headers_of w a) (Finite 20)"

text \<open>
  The readiness condition in the words of the specification: the status is exactly 200,
  the body parses as a JSON object, and the object's \<^verbatim>\<open>ok\<close> is the boolean true.
\<close>

definition ready :: "world \<Rightarrow> int \<times> string \<Rightarrow> bool" where
  "ready w r =
     (fst r = 200 \<and>
      (case json_loads w (snd r) of
         Inr (JObject d) \<Rightarrow> map_of d ''ok'' = Some (JBool True)
       | _ \<Rightarrow> False))"

text \<open>
  What lines 49 and 50 give to the test of line 51 in the attempt that is the \<open>i\<close>-th
  call of the run (from 0) and sends \<open>req\<close>: the status and the body, when the request
  ends in an HTTP response and \<^verbatim>\<open>json.loads\<close> returns or raises \<^verbatim>\<open>JSONDecodeError\<close>;
  the uncaught exception otherwise. \<open>health_reply\<close> is that of a health attempt, and
  \<open>attempt_ready\<close> says whether it is a ready answer.
\<close>

definition reply :: "world \<Rightarrow> request \<Rightarrow> nat \<Rightarrow> stop + int \<times> string" where
  "reply w req i =
     (case caught (urlopen w i req) of
        Inl s \<Rightarrow> Inl s
      | Inr (status, raw) \<Rightarrow>
          (case parse_json_or_none w raw of
             Inl s \<Rightarrow> Inl s
           | Inr body \<Rightarrow> Inr (status, raw)))"

definition health_reply :: "world \<Rightarrow> args \<Rightarrow> nat \<Rightarrow> stop + int \<times> string" where
  "health_reply w a i = reply w (health_request w a) i"

definition attempt_ready :: "world \<Rightarrow> args \<Rightarrow> nat \<Rightarrow> bool" where
  "attempt_ready w a i = (case health_reply w a i of Inr r \<Rightarrow> ready w r | Inl s \<Rightarrow> False)"

definition loop_ready :: "world \<Rightarrow> request \<Rightarrow> nat \<Rightarrow> bool" where
  "loop_ready w req i = (case reply w req i of Inr r \<Rightarrow> ready w r | Inl s \<Rightarrow> False)"

text \<open>\<open>n\<close> health attempts, each followed by the sleep.\<close>

fun attempts_trace :: "request \<Rightarrow> pyfloat \<Rightarrow> nat \<Rightarrow> trace" where
  "attempts_trace req d 0 = []"
| "attempts_trace req d (Suc n) = Urlopen req # Sleep d # attempts_trace req d n"

text \<open>How often a request occurs in a trace, and the events that are printed lines.\<close>

definition count_request :: "request \<Rightarrow> trace \<Rightarrow> nat" where
  "count_request req tr = length (filter (\<lambda>e. e = Urlopen req) tr)"

fun is_print :: "event \<Rightarrow> bool" where
  "is_print (Stdout s) = True"
| "is_print (Stderr s) = True"
| "is_print e = False"

fun is_stderr :: "event \<Rightarrow> bool" where
  "is_stderr (Stderr s) = True"
| "is_stderr e = False"

fun is_object :: "json \<Rightarrow> bool" where
  "is_object (JObject d) = True"
| "is_object v = False"

fun is_http_error :: "py_exc \<Rightarrow> bool" where
  "is_http_error (HTTPError code raw) = True"
| "is_http_error e = False"

text \<open>
  The lines for failing checks in the words of the amended claim. A check fails when it
  is an object whose \<^verbatim>\<open>passed\<close> is missing or anything but the boolean true. Its name is
  replaced by \<^verbatim>\<open>unknown\<close>, and its detail by the empty string, when the key is absent
  or its value tests false in Python: null, false, zero, or an empty string, list or
  object. Any other value is shown as \<^verbatim>\<open>str\<close> shows it.
\<close>

definition claimed_name :: "world \<Rightarrow> pydict \<Rightarrow> string" where
  "claimed_name w c =
     (case map_of c ''name'' of
        None \<Rightarrow> ''unknown''
      | Some v \<Rightarrow> if truthy v then py_str w v else ''unknown'')"

definition claimed_detail :: "world \<Rightarrow> pydict \<Rightarrow> string" where
  "claimed_detail w c =
     (case map_of c ''detail'' of
        None \<Rightarrow> []
      | Some v \<Rightarrow> if truthy v then py_str w v else [])"

definition claimed_lines :: "world \<Rightarrow> json list \<Rightarrow> string list" where
  "claimed_lines w checks =
     [''[FAILED] '' @ claimed_name w c @ '': '' @ claimed_detail w c.
        JObject c \<leftarrow> checks, map_of c ''passed'' \<noteq> Some (JBool True)]"

text \<open>The lines of a body: those of its \<^verbatim>\<open>checks\<close> when that is a list, none otherwise.\<close>

definition claimed_failures :: "world \<Rightarrow> pydict \<Rightarrow> string list" where
  "claimed_failures w body =
     (case map_of body ''checks'' of
        Some (JList checks) \<Rightarrow> claimed_lines w checks
      | _ \<Rightarrow> [])"

text \<open>The loop of \<^verbatim>\<open>ensure_health\<close> as \<^verbatim>\<open>main\<close> runs it.\<close>

definition probe :: "world \<Rightarrow> args \<Rightarrow> (stop + loop_end) \<times> trace" where
  "probe w a = health_loop w (base_url_of a @ ''/housekeeper/health'') (health_retries a)
      (health_timeout a) (retry_delay a) (headers_of w a) [1..health_retries a] []"

section \<open>Concrete runs\<close>

text \<open>The defaults of \<^verbatim>\<open>parse_args\<close>.\<close>

definition default_args :: args where
  "default_args =
     \<lparr>endpoint = ''http://127.0.0.1:48765'', token = [], health_retries = 3,
      health_timeout = Finite 2, retry_delay = Finite (7 / 10)\<rparr>"

text \<open>
  A network that answers the calls of a run with the outcomes of a list, in order, and
  refuses the connection afterwards.
\<close>

definition scripted ::
  "(py_exc + int \<times> string) list \<Rightarrow> nat \<Rightarrow> request \<Rightarrow> py_exc + int \<times> string" where
  "scripted rs i req =
     (if i < length rs then rs ! i else Inl (URLError ''[Errno 111] Connection refused''))"

text \<open>
  \<^verbatim>\<open>time.sleep\<close>: it rejects NaN, then a length that does not fit 64 bits of
  nanoseconds (the infinities among them), then a negative one.
\<close>

definition sleep_check :: "pyfloat \<Rightarrow> py_exc option" where
  "sleep_check d =
     (case d of
        NaN \<Rightarrow> Some (ValueError ''Invalid value NaN (not a number)'')
      | PosInf \<Rightarrow> Some (OverflowError ''timestamp too large to convert to C _PyTime_t'')
      | NegInf \<Rightarrow> Some (OverflowError ''timestamp too large to convert to C _PyTime_t'')
      | Finite x \<Rightarrow>
          if x * 1000000000 < - (2 ^ 63) \<or> 2 ^ 63 < x * 1000000000 then
            Some (OverflowError ''timestamp too large to convert to C _PyTime_t'')
          else if x < 0 then Some (ValueError ''sleep length must be non-negative'')
          else None)"

text \<open>
  Standard output that encodes in UTF-8: \<^verbatim>\<open>print\<close> raises on a string with a
  surrogate (in the bytes of a string, \<open>0xED\<close> followed by a byte from \<open>0xA0\<close> to
  \<open>0xBF\<close>) and on nothing else.
\<close>

fun has_surrogate :: "string \<Rightarrow> bool" where
  "has_surrogate (c # d # cs) =
     (c = CHR 0xED \<and> (160::nat) \<le> of_char d \<and> (of_char d :: nat) \<le> 191 \<or>
      has_surrogate (d # cs))"
| "has_surrogate cs = False"

definition utf8_stdout :: "string \<Rightarrow> py_exc option" where
  "utf8_stdout s = (if has_surrogate s then Some UnicodeEncodeError else None)"

text \<open>The bodies used below, with what \<^verbatim>\<open>json.loads\<close> makes of them.\<close>

definition ok_body :: string where
  \<open>ok_body = ''{"ok": true}''\<close>

definition not_ok_body :: string where
  \<open>not_ok_body = ''{"ok": false}''\<close>

definition disk_body :: string where
  \<open>disk_body = ''{"ok": false, "checks": [{"name":"disk","passed":false,"detail":"low space"},{"name":"mem","passed":true}]}''\<close>

definition disk_report :: json where
  "disk_report =
     JObject [(''ok'', JBool False),
              (''checks'',
               JList [JObject [(''name'', JStr ''disk''), (''passed'', JBool False),
                               (''detail'', JStr ''low space'')],
                      JObject [(''name'', JStr ''mem''), (''passed'', JBool True)]])]"

text \<open>A failing check whose name is the number 0 and whose detail is \<^verbatim>\<open>false\<close>.\<close>

definition zero_body :: string where
  \<open>zero_body = ''{"ok": false, "checks": [{"name": 0, "passed": false, "detail": false}]}''\<close>

definition zero_check :: pydict where
  "zero_check = [(''name'', JInt 0), (''passed'', JBool False), (''detail'', JBool False)]"

definition zero_report :: json where
  "zero_report = JObject [(''ok'', JBool False), (''checks'', JList [JObject zero_check])]"

text \<open>
  An object that says ok and holds a string that is one lone surrogate, written in the
  body with the escape for U+D800, and the text \<^verbatim>\<open>json.dumps\<close> makes of it with
  \<^verbatim>\<open>ensure_ascii=False\<close> and \<^verbatim>\<open>indent=2\<close>: the surrogate is in it as it is.
\<close>

definition surrogate_body :: string where
  \<open>surrogate_body = ''{"ok": true, "x": "'' @ [CHR 0x5C] @ ''ud800"}''\<close>

definition lone_surrogate :: string where
  "lone_surrogate = [CHR 0xED, CHR 0xA0, CHR 0x80]"

definition surrogate_report :: json where
  "surrogate_report = JObject [(''ok'', JBool True), (''x'', JStr lone_surrogate)]"

definition surrogate_text :: string where
  \<open>surrogate_text =
     ''{'' @ [CHR 0x0A] @ ''  "ok": true,'' @ [CHR 0x0A] @ ''  "x": "'' @ lone_surrogate @ ''"''
       @ [CHR 0x0A] @ ''}''\<close>

text \<open>A body of 1200 opening brackets: \<^verbatim>\<open>json.loads\<close> raises \<^verbatim>\<open>RecursionError\<close> on it.\<close>

definition deep_body :: string where
  "deep_body = replicate 1200 CHR ''[''"

definition known_bodies :: "(string \<times> json) list" where
  "known_bodies =
     [(ok_body, JObject [(''ok'', JBool True)]),
      (not_ok_body, JObject [(''ok'', JBool False)]),
      (disk_body, disk_report),
      (zero_body, zero_report),
      (surrogate_body, surrogate_report),
      (''[1, 2]'', JList [JInt 1, JInt 2])]"

definition test_loads :: "string \<Rightarrow> py_exc + json" where
  "test_loads raw =
     (case map_of known_bodies raw of
        Some v \<Rightarrow> Inr v
      | None \<Rightarrow> if raw = deep_body then Inl RecursionError else Inl JSONDecodeError)"

text \<open>
  \<^verbatim>\<open>json.dumps\<close> and \<^verbatim>\<open>str\<close> of the concrete runs: the text of the report with the
  lone surrogate, and for every other value a stand-in that only marks where the output
  goes.
\<close>

definition test_dumps :: "json \<Rightarrow> py_exc + string" where
  "test_dumps v =
     (if v = surrogate_report then Inr surrogate_text
      else if v = disk_report then Inr ''<report: disk, mem>''
      else Inr ''<report>'')"

text \<open>
  A world around a scripted network, with no token in the environment. Its
  \<^verbatim>\<open>json.loads\<close> knows the bodies above and takes every other text for no JSON.
\<close>

definition test_world :: "(py_exc + int \<times> string) list \<Rightarrow> world" where
  "test_world rs =
     \<lparr>urlopen = scripted rs, sleep_raises = sleep_check, environ = Map.empty,
      json_loads = test_loads, json_dumps = test_dumps, stdout_raises = utf8_stdout,
      py_repr = (\<lambda>v. ''<repr>'')\<rparr>"

text \<open>The requests and the sleep of a run with the default arguments and no token.\<close>

definition health_get :: request where
  "health_get = Request ''GET'' ''http://127.0.0.1:48765/housekeeper/health'' [] (Finite 2)"

definition self_check_get :: request where
  "self_check_get =
     Request ''GET'' ''http://127.0.0.1:48765/housekeeper/self-check'' [] (Finite 20)"

definition pause :: event where
  "pause = Sleep (Finite (7 / 10))"

text \<open>The runtime never reports ready: not ok, then 503, then a body that is no JSON.\<close>

definition w_never_ready :: world where
  "w_never_ready =
     test_world [Inr (200, not_ok_body), Inl (HTTPError 503 ''starting''), Inr (200, ''not json'')]"

text \<open>Nothing listens on the port.\<close>

definition w_refused :: world where
  "w_refused = test_world []"

text \<open>The runtime is ready, then the connection of the self-check is refused or times out.\<close>

definition w_self_check_refused :: world where
  "w_self_check_refused = test_world [Inr (200, ok_body)]"

definition w_self_check_timeout :: world where
  "w_self_check_timeout = test_world [Inr (200, ok_body), Inl SocketTimeout]"

text \<open>The runtime is ready and the self-check reports a failing disk check.\<close>

definition w_disk :: world where
  "w_disk = test_world [Inr (200, ok_body), Inr (200, disk_body)]"

text \<open>The self-check answers 503 with a body that says ok.\<close>

definition w_unavailable :: world where
  "w_unavailable = test_world [Inr (200, ok_body), Inl (HTTPError 503 ok_body)]"

text \<open>The self-check answers with text that is no JSON.\<close>

definition w_not_json :: world where
  "w_not_json = test_world [Inr (200, ok_body), Inr (200, ''not json'')]"

text \<open>The first health attempt times out; the runtime would be ready afterwards.\<close>

definition w_first_timeout :: world where
  "w_first_timeout = test_world [Inl SocketTimeout, Inr (200, ok_body), Inr (200, ok_body)]"

text \<open>The second health attempt is refused.\<close>

definition w_second_refused :: world where
  "w_second_refused =
     test_world [Inr (200, not_ok_body), Inl (URLError ''[Errno 111] Connection refused'')]"

text \<open>The runtime is ready at the third health attempt, and the self-check passes.\<close>

definition w_third_ready :: world where
  "w_third_ready =
     test_world [Inl (HTTPError 503 ''starting''), Inr (200, not_ok_body), Inr (200, ok_body),
                 Inr (200, ok_body)]"

text \<open>The runtime is ready and the self-check passes.\<close>

definition w_passed :: world where
  "w_passed = test_world [Inr (200, ok_body), Inr (200, ok_body)]"

definition no_retries :: args where
  "no_retries = default_args\<lparr>health_retries := 0\<rparr>"

text \<open>The self-check names a failing check 0 and gives \<^verbatim>\<open>false\<close> for its detail.\<close>

definition w_zero :: world where
  "w_zero = test_world [Inr (200, ok_body), Inr (200, zero_body)]"

text \<open>The self-check answers 200, or 503, with the object that holds a lone surrogate.\<close>

definition w_surrogate :: world where
  "w_surrogate = test_world [Inr (200, ok_body), Inr (200, surrogate_body)]"

definition w_surrogate_503 :: world where
  "w_surrogate_503 = test_world [Inr (200, ok_body), Inl (HTTPError 503 surrogate_body)]"

text \<open>The self-check answers with the 1200 brackets.\<close>

definition w_deep :: world where
  "w_deep = test_world [Inr (200, ok_body), Inr (200, deep_body)]"

section \<open>Evaluation\<close>

lemma length_deep_body: "length deep_body = 1200"
  by (simp add: deep_body_def)

lemma deep_body_neq: "length s \<noteq> 1200 \<Longrightarrow> s \<noteq> deep_body" "length s \<noteq> 1200 \<Longrightarrow> deep_body \<noteq> s"
  using length_deep_body by auto

lemmas run_defs =
  main_def self_check_call_def health_phase_def ensure_health_def request_json_def
  n_requests_def parse_json_or_none_def sleep_def print_stdout_def health_ok_def dict_get_def
  verdict_def gates_def failed_line_def py_or_def base_url_of_def rstrip_slash_def
  token_of_def headers_of_def str_int_def str_nat.simps upto.simps

lemmas world_defs =
  test_world_def scripted_def sleep_check_def utf8_stdout_def test_loads_def test_dumps_def
  known_bodies_def disk_report_def zero_report_def zero_check_def surrogate_report_def
  surrogate_text_def lone_surrogate_def surrogate_body_def zero_body_def deep_body_neq
  default_args_def health_request_def self_check_request_def ok_body_def not_ok_body_def
  disk_body_def health_get_def self_check_get_def pause_def no_retries_def

lemmas eval_defs =
  run_defs world_defs health_reply_def reply_def ready_def attempt_ready_def count_request_def

section \<open>Facts about the functions\<close>

lemma dict_get_True: "dict_get d k = JBool True \<longleftrightarrow> map_of d k = Some (JBool True)"
  by (simp add: dict_get_def split: option.splits)

lemma dict_get_list: "dict_get d k = JList cs \<longleftrightarrow> map_of d k = Some (JList cs)"
  by (simp add: dict_get_def split: option.splits)

lemma decoded_Inr_None: "decoded x = Inr None \<Longrightarrow> \<not> (\<exists>d. x = Inr (JObject d))"
  by auto

lemma health_ok_ready:
  assumes "parse_json_or_none w raw = Inr body"
  shows "health_ok status body = ready w (status, raw)"
proof (cases "json_loads w raw")
  case (Inl e)
  with assms have "body = None"
    by (cases e) (simp_all add: parse_json_or_none_def)
  with Inl show ?thesis
    by (simp add: health_ok_def ready_def)
next
  case (Inr v)
  with assms show ?thesis
    by (cases v) (auto simp: parse_json_or_none_def health_ok_def ready_def dict_get_True)
qed

lemma reply_Inr:
  assumes "reply w req i = Inr r"
  shows "\<exists>body. caught (urlopen w i req) = Inr r \<and> parse_json_or_none w (snd r) = Inr body"
  using assms by (auto simp: reply_def split: sum.splits prod.splits)

lemma reply_Inl:
  assumes "reply w req i = Inl s"
  shows "caught (urlopen w i req) = Inl s \<or>
    (\<exists>r. caught (urlopen w i req) = Inr r \<and> parse_json_or_none w (snd r) = Inl s)"
  using assms by (auto simp: reply_def split: sum.splits prod.splits)

lemma caught_raise: "\<not> is_http_error e \<Longrightarrow> caught (Inl e) = Inl (Raised e)"
  by (cases e) simp_all

lemma health_loop_stop:
  assumes "reply w (Request ''GET'' u hdrs tmo) (n_requests tr) = Inl s"
  shows "health_loop w u retries tmo delay hdrs (x # xs) tr =
    (Inl s, tr @ [Urlopen (Request ''GET'' u hdrs tmo)])"
  using reply_Inl [OF assms] by (auto simp: request_json_def)

lemma health_loop_ready:
  assumes "reply w (Request ''GET'' u hdrs tmo) (n_requests tr) = Inr r" "ready w r"
  shows "health_loop w u retries tmo delay hdrs (x # xs) tr =
    (Inr Returned, tr @ [Urlopen (Request ''GET'' u hdrs tmo)])"
proof -
  obtain status raw where r: "r = (status, raw)" by (cases r)
  from reply_Inr [OF assms(1)] r obtain body where
    b: "caught (urlopen w (n_requests tr) (Request ''GET'' u hdrs tmo)) = Inr (status, raw)"
      "parse_json_or_none w raw = Inr body" by auto
  from health_ok_ready [OF b(2), of status] assms(2) r have "health_ok status body" by simp
  with b show ?thesis by (simp add: request_json_def)
qed

lemma health_loop_retry:
  assumes "reply w (Request ''GET'' u hdrs tmo) (n_requests tr) = Inr r" "\<not> ready w r"
    "x < retries" "sleep_raises w delay = None"
  shows "health_loop w u retries tmo delay hdrs (x # xs) tr =
    health_loop w u retries tmo delay hdrs xs
      (tr @ [Urlopen (Request ''GET'' u hdrs tmo), Sleep delay])"
proof -
  obtain status raw where r: "r = (status, raw)" by (cases r)
  from reply_Inr [OF assms(1)] r obtain body where
    b: "caught (urlopen w (n_requests tr) (Request ''GET'' u hdrs tmo)) = Inr (status, raw)"
      "parse_json_or_none w raw = Inr body" by auto
  from health_ok_ready [OF b(2), of status] assms(2) r have "\<not> health_ok status body" by simp
  with b assms(3,4) show ?thesis by (simp add: request_json_def sleep_def)
qed

lemma health_loop_sleep_raises:
  assumes "reply w (Request ''GET'' u hdrs tmo) (n_requests tr) = Inr r" "\<not> ready w r"
    "x < retries" "sleep_raises w delay = Some e"
  shows "health_loop w u retries tmo delay hdrs (x # xs) tr =
    (Inl (Raised e), tr @ [Urlopen (Request ''GET'' u hdrs tmo)])"
proof -
  obtain status raw where r: "r = (status, raw)" by (cases r)
  from reply_Inr [OF assms(1)] r obtain body where
    b: "caught (urlopen w (n_requests tr) (Request ''GET'' u hdrs tmo)) = Inr (status, raw)"
      "parse_json_or_none w raw = Inr body" by auto
  from health_ok_ready [OF b(2), of status] assms(2) r have "\<not> health_ok status body" by simp
  with b assms(3,4) show ?thesis by (simp add: request_json_def sleep_def)
qed

lemma health_loop_last:
  assumes "reply w (Request ''GET'' u hdrs tmo) (n_requests tr) = Inr r" "\<not> ready w r"
    "\<not> x < retries"
  shows "health_loop w u retries tmo delay hdrs (x # xs) tr =
    health_loop w u retries tmo delay hdrs xs (tr @ [Urlopen (Request ''GET'' u hdrs tmo)])"
proof -
  obtain status raw where r: "r = (status, raw)" by (cases r)
  from reply_Inr [OF assms(1)] r obtain body where
    b: "caught (urlopen w (n_requests tr) (Request ''GET'' u hdrs tmo)) = Inr (status, raw)"
      "parse_json_or_none w raw = Inr body" by auto
  from health_ok_ready [OF b(2), of status] assms(2) r have "\<not> health_ok status body" by simp
  with b assms(3) show ?thesis by (simp add: request_json_def)
qed

lemma failed_lines: "map (failed_line w) (failed cs) = claimed_lines w cs"
  by (induction cs rule: failed.induct)
     (auto simp: claimed_lines_def failed_line_def claimed_name_def claimed_detail_def
        dict_get_def py_or_def split: option.splits)

lemma gates_below_400:
  assumes "status < 400"
  shows "gates w status body tr =
     (if map_of body ''ok'' = Some (JBool True) then (SystemExit 0, tr)
      else (SystemExit 1, tr @ map Stderr (claimed_failures w body)))"
proof (cases "dict_get body ''checks''")
  case (JList cs)
  then have "map_of body ''checks'' = Some (JList cs)" by (simp add: dict_get_list)
  with JList assms show ?thesis
    by (simp add: gates_def dict_get_True claimed_failures_def failed_lines [symmetric])
qed (use assms in \<open>auto simp: gates_def dict_get_True claimed_failures_def dict_get_def
      split: option.splits json.splits\<close>)

lemma gates_stderr:
  "\<exists>rest. gates w status body tr =
      (SystemExit
         (if status \<ge> 400 then 20 else if map_of body ''ok'' = Some (JBool True) then 0 else 1),
       tr @ rest) \<and>
     (\<forall>e\<in>set rest. is_stderr e)"
proof (cases "dict_get body ''checks''")
  case (JList cs)
  have "\<forall>e\<in>set (map (\<lambda>item. Stderr (failed_line w item)) (failed cs)). is_stderr e"
    by simp
  with JList show ?thesis
    by (simp add: gates_def dict_get_True)
qed (simp_all add: gates_def dict_get_True)

lemma verdict_report:
  assumes "parse_json_or_none w raw = Inr (Some body)"
    and "json_dumps w (JObject body) = Inr report" "stdout_raises w report = None"
  shows "verdict w status raw tr = gates w status body (tr @ [Stdout report])"
  using assms by (simp add: verdict_def print_stdout_def)

lemma stderr_print: "is_stderr e \<Longrightarrow> is_print e"
  by (cases e) simp_all

lemma verdict_prints:
  "\<exists>rest. snd (verdict w status raw tr) = tr @ rest \<and> (\<forall>e\<in>set rest. is_print e)"
proof (cases "parse_json_or_none w raw")
  case (Inl s)
  then show ?thesis by (simp add: verdict_def)
next
  case (Inr b)
  show ?thesis
  proof (cases b)
    case None
    with Inr show ?thesis
      by (cases "stdout_raises w raw") (simp_all add: verdict_def print_stdout_def)
  next
    case (Some body)
    show ?thesis
    proof (cases "json_dumps w (JObject body)")
      case (Inl e)
      with Inr Some show ?thesis by (simp add: verdict_def)
    next
      case dumped: (Inr report)
      show ?thesis
      proof (cases "stdout_raises w report")
        case None
        from gates_stderr [of w status body "tr @ [Stdout report]"] obtain rest where
          "snd (gates w status body (tr @ [Stdout report])) = tr @ (Stdout report # rest)"
          "\<forall>e\<in>set rest. is_stderr e" by force
        then have "snd (gates w status body (tr @ [Stdout report])) = tr @ (Stdout report # rest) \<and>
          (\<forall>e\<in>set (Stdout report # rest). is_print e)"
          by (simp add: stderr_print)
        with Inr Some dumped None show ?thesis
          by (metis verdict_report)
      next
        case (Some e)
        with Inr \<open>b = Some body\<close> dumped show ?thesis
          by (simp add: verdict_def print_stdout_def)
      qed
    qed
  qed
qed

lemma n_requests_append: "n_requests (tr @ tr') = n_requests tr + n_requests tr'"
  by (simp add: n_requests_def)

lemma n_requests_attempts: "n_requests (attempts_trace req d m) = m"
  by (induction m) (simp_all add: n_requests_def)

lemma n_requests_single: "n_requests [Urlopen req] = 1" "n_requests [Sleep d] = 0"
  "n_requests [Urlopen req, Sleep d] = 1"
  by (simp_all add: n_requests_def)

lemma health_loop_failed_prefix:
  assumes "\<forall>i<length xs. \<exists>r. reply w (Request ''GET'' u hdrs tmo) (n_requests tr + i) = Inr r
      \<and> \<not> ready w r"
    and "\<forall>x\<in>set xs. x < retries"
    and "xs = [] \<or> sleep_raises w delay = None"
  shows "health_loop w u retries tmo delay hdrs (xs @ ys) tr
    = health_loop w u retries tmo delay hdrs ys
        (tr @ attempts_trace (Request ''GET'' u hdrs tmo) delay (length xs))"
  using assms
proof (induction xs arbitrary: tr)
  case Nil
  then show ?case by simp
next
  case (Cons x xs)
  let ?req = "Request ''GET'' u hdrs tmo"
  from Cons.prems(1) obtain r where r: "reply w ?req (n_requests tr) = Inr r" "\<not> ready w r"
    by fastforce
  have step: "health_loop w u retries tmo delay hdrs ((x # xs) @ ys) tr
      = health_loop w u retries tmo delay hdrs (xs @ ys) (tr @ [Urlopen ?req, Sleep delay])"
    using health_loop_retry [OF r] Cons.prems(2,3) by simp
  have n: "n_requests (tr @ [Urlopen ?req, Sleep delay]) = Suc (n_requests tr)"
    by (simp add: n_requests_def)
  have "\<forall>i<length xs. \<exists>r. reply w ?req (n_requests (tr @ [Urlopen ?req, Sleep delay]) + i) = Inr r
      \<and> \<not> ready w r"
  proof (intro allI impI)
    fix i assume "i < length xs"
    then have "Suc i < length (x # xs)" by simp
    with Cons.prems(1) show "\<exists>r. reply w ?req (n_requests (tr @ [Urlopen ?req, Sleep delay]) + i)
        = Inr r \<and> \<not> ready w r"
      unfolding n by (metis add_Suc_shift)
  qed
  moreover have "\<forall>x\<in>set xs. x < retries" using Cons.prems(2) by simp
  moreover have "xs = [] \<or> sleep_raises w delay = None" using Cons.prems(3) by simp
  ultimately have "health_loop w u retries tmo delay hdrs (xs @ ys)
      (tr @ [Urlopen ?req, Sleep delay])
    = health_loop w u retries tmo delay hdrs ys
        ((tr @ [Urlopen ?req, Sleep delay]) @ attempts_trace ?req delay (length xs))"
    by (rule Cons.IH)
  with step show ?case by simp
qed

lemma health_loop_first_ready:
  assumes "health_loop w u retries tmo delay hdrs xs tr = (res, tr')"
    and "n_requests tr + m < n_requests tr'"
    and "\<forall>j<m. \<not> loop_ready w (Request ''GET'' u hdrs tmo) (n_requests tr + j)"
    and "loop_ready w (Request ''GET'' u hdrs tmo) (n_requests tr + m)"
    and "\<forall>i<m. i < length xs \<longrightarrow> xs ! i < retries"
  shows "res = Inr Returned \<and>
         tr' = tr @ attempts_trace (Request ''GET'' u hdrs tmo) delay m
             @ [Urlopen (Request ''GET'' u hdrs tmo)]"
  using assms
proof (induction xs arbitrary: tr m)
  case Nil
  then show ?case by simp
next
  case (Cons x xs)
  let ?req = "Request ''GET'' u hdrs tmo"
  let ?tr1 = "tr @ [Urlopen ?req]"
  have n1: "n_requests ?tr1 = Suc (n_requests tr)" by (simp add: n_requests_def)
  show ?case
  proof (cases "reply w ?req (n_requests tr)")
    case (Inl s)
    then have "tr' = ?tr1" using Cons.prems(1) health_loop_stop [OF Inl] by simp
    with Cons.prems(2) n1 have "m = 0" by simp
    with Cons.prems(4) Inl show ?thesis by (simp add: loop_ready_def)
  next
    case (Inr r)
    show ?thesis
    proof (cases "ready w r")
      case True
      then have "loop_ready w ?req (n_requests tr + 0)" using Inr by (simp add: loop_ready_def)
      with Cons.prems(3) have "m = 0" by (metis not_gr_zero)
      with Cons.prems(1) health_loop_ready [OF Inr True] show ?thesis by simp
    next
      case False
      then have "\<not> loop_ready w ?req (n_requests tr)" using Inr by (simp add: loop_ready_def)
      with Cons.prems(4) obtain m' where m: "m = Suc m'" by (cases m) auto
      with Cons.prems(5) have x: "x < retries" by auto
      show ?thesis
      proof (cases "sleep_raises w delay")
        case (Some e)
        then have "tr' = ?tr1"
          using Cons.prems(1) health_loop_sleep_raises [OF Inr False x Some] by simp
        with Cons.prems(2) n1 m show ?thesis by simp
      next
        case None
        let ?tr2 = "tr @ [Urlopen ?req, Sleep delay]"
        have n2: "n_requests ?tr2 = Suc (n_requests tr)" by (simp add: n_requests_def)
        have run: "health_loop w u retries tmo delay hdrs xs ?tr2 = (res, tr')"
          using Cons.prems(1) health_loop_retry [OF Inr False x None] by simp
        have a: "n_requests ?tr2 + m' < n_requests tr'" using Cons.prems(2) n2 m by simp
        have b: "\<forall>j<m'. \<not> loop_ready w ?req (n_requests ?tr2 + j)"
          using Cons.prems(3) n2 m by (metis Suc_less_eq add_Suc_shift)
        have c: "loop_ready w ?req (n_requests ?tr2 + m')"
          using Cons.prems(4) n2 m by simp
        have d: "\<forall>i<m'. i < length xs \<longrightarrow> xs ! i < retries"
          using Cons.prems(5) m by fastforce
        from Cons.IH [OF run a b c d] show ?thesis using m by simp
      qed
    qed
  qed
qed

lemma health_loop_trace:
  "\<exists>ext. snd (health_loop w u retries tmo delay hdrs xs tr) = tr @ ext \<and>
      set ext \<subseteq> {Urlopen (Request ''GET'' u hdrs tmo), Sleep delay} \<and> n_requests ext \<le> length xs"
proof (induction xs arbitrary: tr)
  case Nil
  then show ?case by (simp add: n_requests_def)
next
  case (Cons x xs)
  let ?req = "Request ''GET'' u hdrs tmo"
  show ?case
  proof (cases "reply w ?req (n_requests tr)")
    case (Inl s)
    show ?thesis unfolding health_loop_stop [OF Inl] by (simp add: n_requests_def)
  next
    case (Inr r)
    show ?thesis
    proof (cases "ready w r")
      case True
      show ?thesis unfolding health_loop_ready [OF Inr True] by (simp add: n_requests_def)
    next
      case False
      show ?thesis
      proof (cases "x < retries")
        case x: True
        show ?thesis
        proof (cases "sleep_raises w delay")
          case None
          from Cons.IH [of "tr @ [Urlopen ?req, Sleep delay]"] obtain ext where
            "snd (health_loop w u retries tmo delay hdrs xs (tr @ [Urlopen ?req, Sleep delay]))
                = (tr @ [Urlopen ?req, Sleep delay]) @ ext"
            "set ext \<subseteq> {Urlopen ?req, Sleep delay}" "n_requests ext \<le> length xs" by blast
          then have "snd (health_loop w u retries tmo delay hdrs (x # xs) tr)
              = tr @ ([Urlopen ?req, Sleep delay] @ ext)
             \<and> set ([Urlopen ?req, Sleep delay] @ ext) \<subseteq> {Urlopen ?req, Sleep delay}
             \<and> n_requests ([Urlopen ?req, Sleep delay] @ ext) \<le> length (x # xs)"
            unfolding health_loop_retry [OF Inr False x None] by (simp add: n_requests_def)
          then show ?thesis by blast
        next
          case (Some e)
          show ?thesis unfolding health_loop_sleep_raises [OF Inr False x Some]
              by (simp add: n_requests_def)
        qed
      next
        case x: False
        from Cons.IH [of "tr @ [Urlopen ?req]"] obtain ext where
            "snd (health_loop w u retries tmo delay hdrs xs (tr @ [Urlopen ?req]))
                = (tr @ [Urlopen ?req]) @ ext"
            "set ext \<subseteq> {Urlopen ?req, Sleep delay}" "n_requests ext \<le> length xs" by blast
        then have "snd (health_loop w u retries tmo delay hdrs (x # xs) tr)
            = tr @ ([Urlopen ?req] @ ext)
             \<and> set ([Urlopen ?req] @ ext) \<subseteq> {Urlopen ?req, Sleep delay}
             \<and> n_requests ([Urlopen ?req] @ ext) \<le> length (x # xs)"
            unfolding health_loop_last [OF Inr False x] by (simp add: n_requests_def)
        then show ?thesis by blast
      qed
    qed
  qed
qed

lemma request_self_check:
  "request_json w ''GET'' (base_url_of a @ ''/housekeeper/self-check'') (headers_of w a)
      (Finite 20) tr
     = (caught (urlopen w (n_requests tr) (self_check_request w a)), tr
         @ [Urlopen (self_check_request w a)])"
  by (simp add: request_json_def self_check_request_def Let_def)

lemma health_phase_probe:
  "health_phase w a =
     (case probe w a of
        (Inl s, tr) \<Rightarrow> (Inl s, tr)
      | (Inr Returned, tr) \<Rightarrow> (Inr (), tr)
      | (Inr Exhausted, tr) \<Rightarrow>
          (Inl (SystemExit 10), tr @ [Stderr ''health check failed: runtime not ready'']))"
  by (simp add: health_phase_def ensure_health_def probe_def)

lemma main_stop: "probe w a = (Inl s, tr) \<Longrightarrow> main w a = (s, tr)"
  by (simp add: main_def self_check_call_def health_phase_probe)

lemma main_exhausted: "probe w a = (Inr Exhausted, tr) \<Longrightarrow>
   main w a = (SystemExit 10, tr @ [Stderr ''health check failed: runtime not ready''])"
  by (simp add: main_def self_check_call_def health_phase_probe)

lemma call_returned: "probe w a = (Inr Returned, tr) \<Longrightarrow>
   self_check_call w a
       = (caught (urlopen w (n_requests tr) (self_check_request w a)), tr
       @ [Urlopen (self_check_request w a)])"
  by (simp add: self_check_call_def health_phase_probe request_self_check)

lemma health_phase_returned: "health_phase w a = (Inr u, tr) \<Longrightarrow> probe w a = (Inr Returned, tr)"
  by (auto simp: health_phase_probe split: prod.splits sum.splits loop_end.splits)

lemma upto_1_split:
  assumes "1 \<le> k" "int k \<le> r"
  shows "[1..r] = [1..int k - 1] @ int k # [int k + 1..r]"
  using assms by (intro upto_split3) simp_all

lemma probe_request: "Request ''GET'' (base_url_of a @ ''/housekeeper/health'') (headers_of w a)
    (health_timeout a) = health_request w a"
  by (simp add: health_request_def)

lemma requests_differ: "health_request w a \<noteq> self_check_request w a"
  by (simp add: health_request_def self_check_request_def)

lemma probe_raise:
  assumes k: "1 \<le> k" "int k \<le> health_retries a"
    and fails: "\<forall>i<k - 1. \<exists>r. health_reply w a i = Inr r \<and> \<not> ready w r"
    and slp: "k = 1 \<or> sleep_raises w (retry_delay a) = None"
    and exc: "health_reply w a (k - 1) = Inl s"
  shows "probe w a
      = (Inl s, attempts_trace (health_request w a) (retry_delay a) (k - 1)
      @ [Urlopen (health_request w a)])"
proof -
  let ?req = "health_request w a"
  let ?xs = "[1..int k - 1]"
  have len: "length ?xs = k - 1" by simp
  have a: "\<forall>i<length ?xs. \<exists>r. reply w
      (Request ''GET'' (base_url_of a @ ''/housekeeper/health'') (headers_of w a)
      (health_timeout a)) (n_requests [] + i) = Inr r \<and> \<not> ready w r"
    using fails unfolding len probe_request by (simp add: health_reply_def n_requests_def)
  have b: "\<forall>x\<in>set ?xs. x < health_retries a" using k by auto
  have c: "?xs = [] \<or> sleep_raises w (retry_delay a) = None" using slp by auto
  have n: "n_requests ([] @ attempts_trace ?req (retry_delay a) (k - 1)) = k - 1"
    by (simp add: n_requests_attempts)
  have "probe w a = health_loop w (base_url_of a @ ''/housekeeper/health'') (health_retries a)
      (health_timeout a) (retry_delay a) (headers_of w a) (int k # [int k + 1..health_retries a])
      ([] @ attempts_trace ?req (retry_delay a) (k - 1))"
    unfolding probe_def upto_1_split [OF k] 
    using health_loop_failed_prefix [OF a b c] unfolding len probe_request by simp
  also have "\<dots> = (Inl s, ([] @ attempts_trace ?req (retry_delay a) (k - 1)) @ [Urlopen ?req])"
    unfolding probe_request [symmetric]
    by (rule health_loop_stop)
        (use exc in \<open>simp add: n_requests_attempts health_reply_def health_request_def\<close>)
  finally show ?thesis by simp
qed

lemma probe_exhausted:
  assumes r: "1 \<le> health_retries a"
    and fails: "\<forall>i<nat (health_retries a). \<exists>r. health_reply w a i = Inr r \<and> \<not> ready w r"
    and slp: "health_retries a = 1 \<or> sleep_raises w (retry_delay a) = None"
  shows "probe w a
      = (Inr Exhausted, attempts_trace (health_request w a) (retry_delay a)
      (nat (health_retries a) - 1) @ [Urlopen (health_request w a)])"
proof -
  let ?req = "health_request w a"
  define k where "k = nat (health_retries a)"
  have k: "1 \<le> k" "int k \<le> health_retries a"
      "int k = health_retries a" using r by (simp_all add: k_def)
  let ?xs = "[1..int k - 1]"
  have len: "length ?xs = k - 1" by simp
  have a: "\<forall>i<length ?xs. \<exists>r. reply w
      (Request ''GET'' (base_url_of a @ ''/housekeeper/health'') (headers_of w a)
      (health_timeout a)) (n_requests [] + i) = Inr r \<and> \<not> ready w r"
    using fails unfolding len probe_request k_def [symmetric]
        by (simp add: health_reply_def n_requests_def)
  have b: "\<forall>x\<in>set ?xs. x < health_retries a" using k by auto
  have c: "?xs = [] \<or> sleep_raises w (retry_delay a) = None" using slp k by auto
  have "k - 1 < k" using k(1) by simp
  with fails obtain r where last: "health_reply w a (k - 1) = Inr r" "\<not> ready w r"
    unfolding k_def [symmetric] by blast
  have "probe w a = health_loop w (base_url_of a @ ''/housekeeper/health'') (health_retries a)
      (health_timeout a) (retry_delay a) (headers_of w a) (int k # [int k + 1..health_retries a])
      ([] @ attempts_trace ?req (retry_delay a) (k - 1))"
    unfolding probe_def upto_1_split [OF k(1,2)] 
    using health_loop_failed_prefix [OF a b c] unfolding len probe_request by simp
  also have "\<dots> = health_loop w (base_url_of a @ ''/housekeeper/health'') (health_retries a)
      (health_timeout a) (retry_delay a) (headers_of w a) [int k + 1..health_retries a]
      (([] @ attempts_trace ?req (retry_delay a) (k - 1)) @ [Urlopen ?req])"
    unfolding probe_request [symmetric]
    by (rule health_loop_last [OF _ last(2)])
        (use last(1) k in \<open>simp_all add: n_requests_attempts health_reply_def health_request_def\<close>)
  also have "\<dots> = (Inr Exhausted, attempts_trace ?req (retry_delay a) (k - 1) @ [Urlopen ?req])"
    using k(3) by simp
  finally show ?thesis by (simp add: k_def)
qed

lemma count_request_append: "count_request r (xs @ ys) = count_request r xs + count_request r ys"
  by (simp add: count_request_def)

lemma count_request_Cons:
  "count_request r (e # xs) = (if e = Urlopen r then 1 else 0) + count_request r xs"
  by (simp add: count_request_def)

lemma count_request_Nil: "count_request r [] = 0"
  by (simp add: count_request_def)

lemma count_request_loop_events:
  "set ext \<subseteq> {Urlopen r, Sleep d} \<Longrightarrow> count_request r ext = n_requests ext"
  by (induction ext) (auto simp: count_request_def n_requests_def)

lemma count_request_prints: "\<forall>e\<in>set rest. is_print e \<Longrightarrow> count_request r rest = 0"
  by (induction rest) (auto simp: count_request_def)

lemma count_request_attempts: "count_request r (attempts_trace r d m) = m"
  by (induction m) (simp_all add: count_request_def)

lemma count_request_attempts_other: "r' \<noteq> r \<Longrightarrow> count_request r' (attempts_trace r d m) = 0"
  by (induction m) (simp_all add: count_request_def)

lemma main_returned:
  assumes "probe w a = (Inr Returned, tr)"
  shows "\<exists>rest. snd (main w a) = tr @ Urlopen (self_check_request w a) # rest \<and>
    (\<forall>e\<in>set rest. is_print e)"
proof (cases "caught (urlopen w (n_requests tr) (self_check_request w a))")
  case (Inl s)
  then have "main w a = (s, tr @ [Urlopen (self_check_request w a)])"
    using call_returned [OF assms] by (simp add: main_def)
  then show ?thesis by simp
next
  case (Inr r)
  obtain status raw where r: "r = (status, raw)" by (cases r)
  have m: "main w a = verdict w status raw (tr @ [Urlopen (self_check_request w a)])"
    using call_returned [OF assms] Inr r by (simp add: main_def)
  from verdict_prints [of w status raw "tr @ [Urlopen (self_check_request w a)]"] m
  show ?thesis by simp
qed

lemma main_health_count:
  "count_request (health_request w a) (snd (main w a)) = n_requests (snd (probe w a))"
proof -
  obtain res tr where p: "probe w a = (res, tr)" by (cases "probe w a")
  from health_loop_trace [of w "base_url_of a @ ''/housekeeper/health''" "health_retries a"
      "health_timeout a" "retry_delay a" "headers_of w a" "[1..health_retries a]" "[]"]
  have "set tr \<subseteq> {Urlopen (health_request w a), Sleep (retry_delay a)}"
    using p by (simp add: probe_def health_request_def)
  then have c: "count_request (health_request w a) tr = n_requests tr"
    by (rule count_request_loop_events)
  show ?thesis
  proof (cases res)
    case (Inl s)
    with p c show ?thesis by (simp add: main_stop)
  next
    case (Inr e)
    show ?thesis
    proof (cases e)
      case Returned
      with Inr p have pr: "probe w a = (Inr Returned, tr)" by simp
      from main_returned [OF pr] obtain rest where
        "snd (main w a) = tr @ Urlopen (self_check_request w a) # rest" "\<forall>e\<in>set rest. is_print e"
        by blast
      then show ?thesis using p c requests_differ [of w a]
        by (simp add: count_request_append count_request_Cons count_request_prints)
    next
      case Exhausted
      with Inr p have "main w a
          = (SystemExit 10, tr @ [Stderr ''health check failed: runtime not ready''])"
        by (simp add: main_exhausted)
      with p c show ?thesis by (simp add: count_request_append count_request_Cons count_request_Nil)
    qed
  qed
qed

lemma loop_ready_attempt: "loop_ready w (health_request w a) i = attempt_ready w a i"
  by (simp add: loop_ready_def attempt_ready_def health_reply_def)

lemma probe_ready:
  assumes k: "1 \<le> k" "int k \<le> health_retries a"
    and fails: "\<forall>i<k - 1. \<exists>r. health_reply w a i = Inr r \<and> \<not> ready w r"
    and slp: "k = 1 \<or> sleep_raises w (retry_delay a) = None"
    and ok: "health_reply w a (k - 1) = Inr r" "ready w r"
  shows "probe w a
      = (Inr Returned, attempts_trace (health_request w a) (retry_delay a) (k - 1)
      @ [Urlopen (health_request w a)])"
proof -
  let ?req = "health_request w a"
  let ?xs = "[1..int k - 1]"
  have len: "length ?xs = k - 1" by simp
  have a: "\<forall>i<length ?xs. \<exists>r. reply w
      (Request ''GET'' (base_url_of a @ ''/housekeeper/health'') (headers_of w a)
      (health_timeout a)) (n_requests [] + i) = Inr r \<and> \<not> ready w r"
    using fails unfolding len probe_request by (simp add: health_reply_def n_requests_def)
  have b: "\<forall>x\<in>set ?xs. x < health_retries a" using k by auto
  have c: "?xs = [] \<or> sleep_raises w (retry_delay a) = None" using slp by auto
  have "probe w a = health_loop w (base_url_of a @ ''/housekeeper/health'') (health_retries a)
      (health_timeout a) (retry_delay a) (headers_of w a) (int k # [int k + 1..health_retries a])
      ([] @ attempts_trace ?req (retry_delay a) (k - 1))"
    unfolding probe_def upto_1_split [OF k] 
    using health_loop_failed_prefix [OF a b c] unfolding len probe_request by simp
  also have "\<dots>
      = (Inr Returned, ([] @ attempts_trace ?req (retry_delay a) (k - 1)) @ [Urlopen ?req])"
    unfolding probe_request [symmetric]
    by (rule health_loop_ready [OF _ ok(2)])
        (use ok(1) in \<open>simp add: n_requests_attempts health_reply_def health_request_def\<close>)
  finally show ?thesis by simp
qed

lemma health_loop_not_returned:
  assumes "health_loop w u retries tmo delay hdrs xs tr = (res, tr')"
    and "\<forall>i. n_requests tr \<le> i \<and> i < n_requests tr' \<longrightarrow> \<not> loop_ready w (Request ''GET'' u hdrs tmo) i"
  shows "res \<noteq> Inr Returned"
  using assms
proof (induction xs arbitrary: tr)
  case Nil
  then show ?case by auto
next
  case (Cons x xs)
  let ?req = "Request ''GET'' u hdrs tmo"
  show ?case
  proof (cases "reply w ?req (n_requests tr)")
    case (Inl s)
    with Cons.prems(1) health_loop_stop [OF Inl] show ?thesis by auto
  next
    case (Inr r)
    show ?thesis
    proof (cases "ready w r")
      case True
      then have "tr' = tr @ [Urlopen ?req]"
        using Cons.prems(1) health_loop_ready [OF Inr True] by simp
      then have "n_requests tr < n_requests tr'" by (simp add: n_requests_def)
      with Cons.prems(2) have "\<not> loop_ready w ?req (n_requests tr)" by simp
      with Inr True show ?thesis by (simp add: loop_ready_def)
    next
      case False
      show ?thesis
      proof (cases "x < retries")
        case x: True
        show ?thesis
        proof (cases "sleep_raises w delay")
          case None
          let ?tr2 = "tr @ [Urlopen ?req, Sleep delay]"
          have run: "health_loop w u retries tmo delay hdrs xs ?tr2 = (res, tr')"
            using Cons.prems(1) health_loop_retry [OF Inr False x None] by simp
          have "\<forall>i. n_requests ?tr2 \<le> i \<and> i < n_requests tr' \<longrightarrow> \<not> loop_ready w ?req i"
            using Cons.prems(2) by (simp add: n_requests_def)
          from Cons.IH [OF run this] show ?thesis .
        next
          case (Some e)
          with Cons.prems(1) health_loop_sleep_raises [OF Inr False x Some] show ?thesis by auto
        qed
      next
        case x: False
        let ?tr1 = "tr @ [Urlopen ?req]"
        have run: "health_loop w u retries tmo delay hdrs xs ?tr1 = (res, tr')"
          using Cons.prems(1) health_loop_last [OF Inr False x] by simp
        have "\<forall>i. n_requests ?tr1 \<le> i \<and> i < n_requests tr' \<longrightarrow> \<not> loop_ready w ?req i"
          using Cons.prems(2) by (simp add: n_requests_def)
        from Cons.IH [OF run this] show ?thesis .
      qed
    qed
  qed
qed

lemma probe_not_returned:
  assumes "\<forall>i<count_request (health_request w a) (snd (main w a)). \<not> attempt_ready w a i"
  shows "fst (probe w a) \<noteq> Inr Returned"
proof -
  obtain res tr where p: "probe w a = (res, tr)" by (cases "probe w a")
  have loop: "health_loop w (base_url_of a @ ''/housekeeper/health'') (health_retries a)
      (health_timeout a) (retry_delay a) (headers_of w a) [1..health_retries a] [] = (res, tr)"
    using p by (simp add: probe_def)
  have "\<forall>i. n_requests [] \<le> i \<and> i < n_requests tr \<longrightarrow>
      \<not> loop_ready w
          (Request ''GET'' (base_url_of a @ ''/housekeeper/health'') (headers_of w a)
          (health_timeout a)) i"
    using assms p by (simp add: main_health_count probe_request loop_ready_attempt)
  from health_loop_not_returned [OF loop this] p show ?thesis by simp
qed

lemma no_self_check_unless_returned:
  assumes "fst (probe w a) \<noteq> Inr Returned"
  shows "count_request (self_check_request w a) (snd (main w a)) = 0"
proof -
  obtain res tr where p: "probe w a = (res, tr)" by (cases "probe w a")
  from health_loop_trace [of w "base_url_of a @ ''/housekeeper/health''" "health_retries a"
      "health_timeout a" "retry_delay a" "headers_of w a" "[1..health_retries a]" "[]"]
  have "set tr \<subseteq> {Urlopen (health_request w a), Sleep (retry_delay a)}"
    using p by (simp add: probe_def health_request_def)
  then have "Urlopen (self_check_request w a) \<notin> set tr"
    using requests_differ [of w a] by auto
  then have c: "count_request (self_check_request w a) tr = 0"
    by (auto simp: count_request_def filter_empty_conv)
  show ?thesis
  proof (cases res)
    case (Inl s)
    with p c show ?thesis by (simp add: main_stop)
  next
    case (Inr e)
    with assms p have "e = Exhausted" by (cases e) simp_all
    with Inr p have "main w a
        = (SystemExit 10, tr @ [Stderr ''health check failed: runtime not ready''])"
      by (simp add: main_exhausted)
    with c show ?thesis by (simp add: count_request_append count_request_Cons count_request_Nil)
  qed
qed

lemma all_attempts_fail:
  assumes made: "\<forall>i<count_request (health_request w a) (snd (main w a)). \<not> attempt_ready w a i"
    and resp: "\<forall>i<nat (health_retries a). \<exists>r. health_reply w a i = Inr r"
    and slp: "health_retries a = 1 \<or> sleep_raises w (retry_delay a) = None"
  shows "i < nat (health_retries a) \<Longrightarrow> \<not> attempt_ready w a i"
proof (induction i rule: less_induct)
  case (less i)
  show ?case
  proof
    assume rdy: "attempt_ready w a i"
    from resp less.prems obtain r where r: "health_reply w a i = Inr r" by blast
    with rdy have rr: "ready w r" by (simp add: attempt_ready_def)
    have k: "1 \<le> Suc i" "int (Suc i) \<le> health_retries a" using less.prems by simp_all
    have f: "\<forall>j<Suc i - 1. \<exists>r. health_reply w a j = Inr r \<and> \<not> ready w r"
    proof (intro allI impI)
      fix j assume "j < Suc i - 1"
      then have j: "j < i" "j < nat (health_retries a)" using less.prems by simp_all
      from resp j(2) obtain r' where r': "health_reply w a j = Inr r'" by blast
      moreover from less.IH [OF j] r' have "\<not> ready w r'" by (simp add: attempt_ready_def)
      ultimately show "\<exists>r. health_reply w a j = Inr r \<and> \<not> ready w r" by blast
    qed
    have s: "Suc i = 1 \<or> sleep_raises w (retry_delay a) = None" using slp less.prems by auto
    have "health_reply w a (Suc i - 1) = Inr r" using r by simp
    from probe_ready [OF k f s this rr]
    have "n_requests (snd (probe w a)) = Suc i"
      by (simp add: n_requests_append n_requests_attempts n_requests_single)
    then have "i < count_request (health_request w a) (snd (main w a))"
      by (simp add: main_health_count)
    with made rdy show False by blast
  qed
qed

section \<open>The claims\<close>

subsection \<open>Readiness prober\<close>

text \<open>
  C1, amended. In every run with a retry count of at least 1 in which no health attempt
  that is made satisfies the readiness condition, the self-check endpoint is never
  requested. If moreover every health attempt ends in an HTTP response whose body
  \<^verbatim>\<open>json.loads\<close> decodes or rejects with \<^verbatim>\<open>JSONDecodeError\<close>, and
  \<^verbatim>\<open>time.sleep\<close> accepts the delay (or the retry count is 1, so that it is never
  called), the run makes as many health requests as the retry count says, with the delay
  after each but the last, prints \<^verbatim>\<open>health check failed: runtime not ready\<close> to
  standard error and exits with code 10.
\<close>

theorem not_ready_exits_10_without_self_check:
  assumes "1 \<le> health_retries a"
    and "\<forall>i<count_request (health_request w a) (snd (main w a)). \<not> attempt_ready w a i"
  shows "count_request (self_check_request w a) (snd (main w a)) = 0 \<and>
    ((\<forall>i<nat (health_retries a). \<exists>r. health_reply w a i = Inr r) \<and>
     (health_retries a = 1 \<or> sleep_raises w (retry_delay a) = None) \<longrightarrow>
     main w a =
       (SystemExit 10,
        attempts_trace (health_request w a) (retry_delay a) (nat (health_retries a) - 1)
          @ [Urlopen (health_request w a), Stderr ''health check failed: runtime not ready'']))"
proof (intro conjI impI)
  show "count_request (self_check_request w a) (snd (main w a)) = 0"
    using probe_not_returned [OF assms(2)] by (rule no_self_check_unless_returned)
next
  assume h: "(\<forall>i<nat (health_retries a). \<exists>r. health_reply w a i = Inr r) \<and>
     (health_retries a = 1 \<or> sleep_raises w (retry_delay a) = None)"
  have "\<forall>i<nat (health_retries a).
      \<exists>r. health_reply w a i = Inr r \<and> \<not> ready w r"
  proof (intro allI impI)
    fix i assume i: "i < nat (health_retries a)"
    with h obtain r where r: "health_reply w a i = Inr r" by blast
    from all_attempts_fail [OF assms(2) conjunct1 [OF h] conjunct2 [OF h] i] r
    have "\<not> ready w r" by (simp add: attempt_ready_def)
    with r show "\<exists>r. health_reply w a i = Inr r \<and> \<not> ready w r" by blast
  qed
  from main_exhausted [OF probe_exhausted [OF assms(1) this conjunct2 [OF h]]]
  show "main w a =
       (SystemExit 10,
        attempts_trace (health_request w a) (retry_delay a) (nat (health_retries a) - 1)
          @ [Urlopen (health_request w a), Stderr ''health check failed: runtime not ready''])"
    by simp
qed

theorem not_ready_exits_10_without_self_check_witness:
  "1 \<le> health_retries default_args \<and>
   count_request health_get (snd (main w_never_ready default_args)) = 3 \<and>
   \<not> attempt_ready w_never_ready default_args 0 \<and>
   \<not> attempt_ready w_never_ready default_args 1 \<and>
   \<not> attempt_ready w_never_ready default_args 2 \<and>
   count_request self_check_get (snd (main w_never_ready default_args)) = 0 \<and>
   main w_never_ready default_args =
     (SystemExit 10,
      [Urlopen health_get, pause, Urlopen health_get, pause, Urlopen health_get,
       Stderr ''health check failed: runtime not ready''])"
proof -
  have r: "1 \<le> health_retries default_args"
    by (simp add: default_args_def)
  have h: "health_request w_never_ready default_args = health_get"
    "self_check_request w_never_ready default_args = self_check_get"
    by (simp_all add: eval_defs w_never_ready_def)
  have n: "count_request health_get (snd (main w_never_ready default_args)) = 3"
    by (simp add: eval_defs w_never_ready_def)
  have a: "\<not> attempt_ready w_never_ready default_args 0"
    "\<not> attempt_ready w_never_ready default_args 1"
    "\<not> attempt_ready w_never_ready default_args 2"
    by (simp_all add: eval_defs w_never_ready_def)
  have made: "\<forall>i<count_request (health_request w_never_ready default_args)
      (snd (main w_never_ready default_args)). \<not> attempt_ready w_never_ready default_args i"
    unfolding h n using a by (simp add: less_Suc_eq numeral_3_eq_3 numeral_2_eq_2)
  have f: "\<forall>i<nat (health_retries default_args).
      \<exists>r. health_reply w_never_ready default_args i = Inr r"
    by (simp add: eval_defs w_never_ready_def less_Suc_eq numeral_3_eq_3)
  have s: "health_retries default_args = 1 \<or>
      sleep_raises w_never_ready (retry_delay default_args) = None"
    by (simp add: eval_defs w_never_ready_def)
  note t = not_ready_exits_10_without_self_check [OF r made]
  have c: "count_request self_check_get (snd (main w_never_ready default_args)) = 0"
    using t [THEN conjunct1] unfolding h .
  have m: "main w_never_ready default_args =
     (SystemExit 10,
      [Urlopen health_get, pause, Urlopen health_get, pause, Urlopen health_get,
       Stderr ''health check failed: runtime not ready''])"
    using t [THEN conjunct2, THEN mp, OF conjI [OF f s]] unfolding h
    by (simp add: default_args_def numeral_2_eq_2 pause_def)
  from r n a c m show ?thesis
    by simp
qed

text \<open>
  C1 as stated fails: an attempt that ends without an HTTP response does not satisfy the
  readiness condition either. With the default arguments (three attempts) and a refused
  connection, the run ends on the uncaught \<^verbatim>\<open>URLError\<close> of the first attempt: the
  diagnostic is not printed and the exit is not \<^verbatim>\<open>sys.exit(10)\<close>.
\<close>

theorem refused_health_attempt_does_not_exit_10:
  "1 \<le> health_retries default_args \<and>
   \<not> attempt_ready w_refused default_args 0 \<and>
   main w_refused default_args =
     (Raised (URLError ''[Errno 111] Connection refused''), [Urlopen health_get]) \<and>
   exit_status (fst (main w_refused default_args)) \<noteq> 10 \<and>
   Stderr ''health check failed: runtime not ready''
     \<notin> set (snd (main w_refused default_args))"
  by (simp add: eval_defs w_refused_def)

text \<open>
  C6, amended. A health attempt that ends in a transport error or timeout (any exception
  other than \<^verbatim>\<open>HTTPError\<close>) is not counted as a failed attempt: when the attempts
  before it ended in HTTP responses that were found not ready (the body decoded, or
  rejected with \<^verbatim>\<open>JSONDecodeError\<close>), the exception leaves \<^verbatim>\<open>ensure_health\<close> and
  \<^verbatim>\<open>main\<close> uncaught, and the run ends with it, with no sleep and no request after
  the failing one and nothing printed by the script.
\<close>

theorem health_transport_error_uncaught:
  assumes "1 \<le> k" "int k \<le> health_retries a"
    and "\<forall>i<k - 1. \<exists>r. health_reply w a i = Inr r \<and> \<not> ready w r"
    and "k = 1 \<or> sleep_raises w (retry_delay a) = None"
    and "urlopen w (k - 1) (health_request w a) = Inl e" "\<not> is_http_error e"
  shows "main w a =
    (Raised e,
     attempts_trace (health_request w a) (retry_delay a) (k - 1) @ [Urlopen (health_request w a)])"
proof -
  have "health_reply w a (k - 1) = Inl (Raised e)"
    using assms(5,6) by (simp add: health_reply_def reply_def caught_raise)
  from main_stop [OF probe_raise [OF assms(1-4) this]] show ?thesis .
qed

theorem health_transport_error_uncaught_witness:
  "int 2 \<le> health_retries default_args \<and>
   urlopen w_second_refused 1 health_get = Inl (URLError ''[Errno 111] Connection refused'') \<and>
   main w_second_refused default_args =
     (Raised (URLError ''[Errno 111] Connection refused''),
      [Urlopen health_get, pause, Urlopen health_get])"
proof -
  have k: "1 \<le> (2::nat)" "int 2 \<le> health_retries default_args"
    by (simp_all add: default_args_def)
  have f: "\<forall>i<2 - 1.
      \<exists>r. health_reply w_second_refused default_args i = Inr r \<and>
          \<not> ready w_second_refused r"
    by (simp add: eval_defs w_second_refused_def)
  have s: "(2::nat) = 1 \<or> sleep_raises w_second_refused (retry_delay default_args) = None"
    by (simp add: eval_defs w_second_refused_def)
  have h: "health_request w_second_refused default_args = health_get"
    by (simp add: eval_defs w_second_refused_def)
  have e: "urlopen w_second_refused (2 - 1) (health_request w_second_refused default_args)
      = Inl (URLError ''[Errno 111] Connection refused'')"
    by (simp add: eval_defs w_second_refused_def)
  have n: "\<not> is_http_error (URLError ''[Errno 111] Connection refused'')"
    by simp
  from health_transport_error_uncaught [OF k f s e n] k(2) e show ?thesis
    unfolding h by (simp add: default_args_def pause_def)
qed

text \<open>
  C6 as stated fails. The first of three health attempts times out; the runtime would
  answer ready to a second attempt. The run ends on the uncaught timeout after one
  request: it neither sleeps nor retries.
\<close>

theorem timed_out_health_attempt_is_not_retried:
  "main w_first_timeout default_args = (Raised SocketTimeout, [Urlopen health_get]) \<and>
   attempt_ready w_first_timeout default_args 1 \<and>
   count_request health_get (snd (main w_first_timeout default_args)) = 1 \<and>
   pause \<notin> set (snd (main w_first_timeout default_args))"
  by (simp add: eval_defs w_first_timeout_def)

text \<open>
  C7. In every run in which the \<open>k\<close>-th health attempt, \<open>1 \<le> k \<le> R\<close>, is made and is
  the first whose answer has status 200 and a JSON object with \<^verbatim>\<open>ok\<close> true, exactly \<open>k\<close>
  health requests are issued and the self-check endpoint is requested exactly once: the
  run consists of \<open>k - 1\<close> health requests each followed by the sleep, the \<open>k\<close>-th health
  request, at once the self-check request, and after that only printed lines.
\<close>

theorem first_ready_attempt_short_circuits:
  assumes k: "1 \<le> k" "int k \<le> health_retries a"
    and made: "k \<le> count_request (health_request w a) (snd (main w a))"
    and ok: "attempt_ready w a (k - 1)"
    and first: "\<forall>j<k - 1. \<not> attempt_ready w a j"
  shows "count_request (health_request w a) (snd (main w a)) = k \<and>
         count_request (self_check_request w a) (snd (main w a)) = 1 \<and>
         (\<exists>rest. snd (main w a) =
            attempts_trace (health_request w a) (retry_delay a) (k - 1)
              @ [Urlopen (health_request w a), Urlopen (self_check_request w a)] @ rest
            \<and> (\<forall>e\<in>set rest. is_print e))"
proof -
  let ?h = "health_request w a" and ?s = "self_check_request w a"
  obtain res tr where p: "probe w a = (res, tr)" by (cases "probe w a")
  have loop: "health_loop w (base_url_of a @ ''/housekeeper/health'') (health_retries a)
      (health_timeout a) (retry_delay a) (headers_of w a) [1..health_retries a] [] = (res, tr)"
    using p by (simp add: probe_def)
  have n: "n_requests [] + (k - 1) < n_requests tr"
    using made k(1) p by (simp add: main_health_count n_requests_def)
  have a: "\<forall>j<k - 1.
      \<not> loop_ready w
          (Request ''GET'' (base_url_of a @ ''/housekeeper/health'') (headers_of w a)
            (health_timeout a))
          (n_requests [] + j)"
    using first by (simp add: probe_request loop_ready_attempt n_requests_def)
  have b: "loop_ready w
      (Request ''GET'' (base_url_of a @ ''/housekeeper/health'') (headers_of w a)
        (health_timeout a))
      (n_requests [] + (k - 1))"
    using ok by (simp add: probe_request loop_ready_attempt n_requests_def)
  have c: "\<forall>i<k - 1. i < length [1..health_retries a] \<longrightarrow>
      [1..health_retries a] ! i < health_retries a"
    using k by auto
  from health_loop_first_ready [OF loop n a b c]
  have pr: "probe w a = (Inr Returned, attempts_trace ?h (retry_delay a) (k - 1) @ [Urlopen ?h])"
    using p by (simp add: probe_request)
  from main_returned [OF pr] obtain rest where
    rest: "snd (main w a) =
        attempts_trace ?h (retry_delay a) (k - 1) @ [Urlopen ?h, Urlopen ?s] @ rest"
      "\<forall>e\<in>set rest. is_print e" by auto
  have "count_request ?h (snd (main w a)) = k"
    using k(1) pr
    by (simp add: main_health_count n_requests_append n_requests_attempts n_requests_single)
  moreover have "count_request ?s (snd (main w a)) = 1"
    unfolding rest(1) count_request_append
    using requests_differ [of w a] rest(2)
    by (simp add: count_request_attempts_other count_request_prints count_request_Cons)
  ultimately show ?thesis using rest by blast
qed

theorem first_ready_attempt_short_circuits_witness:
  "\<not> attempt_ready w_third_ready default_args 0 \<and>
   \<not> attempt_ready w_third_ready default_args 1 \<and>
   attempt_ready w_third_ready default_args 2 \<and>
   count_request health_get (snd (main w_third_ready default_args)) = 3 \<and>
   count_request self_check_get (snd (main w_third_ready default_args)) = 1 \<and>
   main w_third_ready default_args =
     (SystemExit 0,
      [Urlopen health_get, pause, Urlopen health_get, pause, Urlopen health_get,
       Urlopen self_check_get, Stdout ''<report>''])"
proof -
  have k: "1 \<le> (3::nat)" "int 3 \<le> health_retries default_args"
    by (simp_all add: default_args_def)
  have m: "main w_third_ready default_args =
     (SystemExit 0,
      [Urlopen health_get, pause, Urlopen health_get, pause, Urlopen health_get,
       Urlopen self_check_get, Stdout ''<report>''])"
    by (simp add: eval_defs w_third_ready_def)
  have h: "health_request w_third_ready default_args = health_get"
    "self_check_request w_third_ready default_args = self_check_get"
    by (simp_all add: eval_defs w_third_ready_def)
  have made: "3 \<le> count_request (health_request w_third_ready default_args)
      (snd (main w_third_ready default_args))"
    unfolding m h by (simp add: count_request_def health_get_def self_check_get_def pause_def)
  have r: "\<not> attempt_ready w_third_ready default_args 0"
    "\<not> attempt_ready w_third_ready default_args 1"
    "attempt_ready w_third_ready default_args 2"
    by (simp_all add: eval_defs w_third_ready_def)
  have ok: "attempt_ready w_third_ready default_args (3 - 1)"
    using r(3) by simp
  have first: "\<forall>j<3 - 1. \<not> attempt_ready w_third_ready default_args j"
    using r(1,2) by (simp add: less_Suc_eq numeral_2_eq_2)
  from first_ready_attempt_short_circuits [OF k made ok first]
  have "count_request health_get (snd (main w_third_ready default_args)) = 3 \<and>
        count_request self_check_get (snd (main w_third_ready default_args)) = 1"
    unfolding h by simp
  with r m show ?thesis by simp
qed

text \<open>
  C10. With a retry count of zero or less the loop body never runs: no request is issued
  at all, and the run prints the readiness diagnostic to standard error and exits with
  code 10.
\<close>

theorem no_attempt_without_retries:
  assumes "health_retries a \<le> 0"
  shows "main w a = (SystemExit 10, [Stderr ''health check failed: runtime not ready''])"
  using assms by (simp add: main_def self_check_call_def health_phase_def ensure_health_def)

theorem no_attempt_without_retries_witness:
  "health_retries no_retries \<le> 0 \<and>
   main w_passed no_retries = (SystemExit 10, [Stderr ''health check failed: runtime not ready''])"
  using no_attempt_without_retries [of no_retries w_passed]
  by (simp add: no_retries_def)

subsection \<open>Self-check call and verdict\<close>

text \<open>
  C2, amended. When the health phase has succeeded and the self-check request ends in a
  transport failure or timeout (any exception other than \<^verbatim>\<open>HTTPError\<close>), the exception
  is not caught: the run ends with it right after the request, the script has printed
  nothing, and the exit status is the interpreter's 1 for an uncaught exception, not 20.
  Only an \<^verbatim>\<open>HTTPError\<close> is turned into a status and a body.
\<close>

theorem self_check_transport_error_uncaught:
  assumes "health_phase w a = (Inr u, tr)"
    and "urlopen w (n_requests tr) (self_check_request w a) = Inl e" "\<not> is_http_error e"
  shows "main w a = (Raised e, tr @ [Urlopen (self_check_request w a)])
     \<and> exit_status (fst (main w a)) = 1
     \<and> (\<forall>ev\<in>set (snd (main w a)). \<not> is_print ev)"
proof -
  have p: "probe w a = (Inr Returned, tr)" using assms(1) by (rule health_phase_returned)
  have m: "main w a = (Raised e, tr @ [Urlopen (self_check_request w a)])"
    using call_returned [OF p] assms(2,3) by (simp add: main_def caught_raise)
  from health_loop_trace [of w "base_url_of a @ ''/housekeeper/health''" "health_retries a"
      "health_timeout a" "retry_delay a" "headers_of w a" "[1..health_retries a]" "[]"]
  have "set tr \<subseteq> {Urlopen (health_request w a), Sleep (retry_delay a)}"
    using p by (simp add: probe_def health_request_def)
  then have "\<forall>ev\<in>set tr. \<not> is_print ev" by auto
  with m show ?thesis by simp
qed

theorem self_check_transport_error_uncaught_witness:
  "health_phase w_self_check_timeout default_args = (Inr (), [Urlopen health_get]) \<and>
   urlopen w_self_check_timeout 1 self_check_get = Inl SocketTimeout \<and>
   main w_self_check_timeout default_args =
     (Raised SocketTimeout, [Urlopen health_get, Urlopen self_check_get]) \<and>
   exit_status (fst (main w_self_check_timeout default_args)) = 1"
proof -
  have p: "health_phase w_self_check_timeout default_args = (Inr (), [Urlopen health_get])"
    by (simp add: eval_defs w_self_check_timeout_def)
  have h: "self_check_request w_self_check_timeout default_args = self_check_get"
    by (simp add: eval_defs w_self_check_timeout_def)
  have e: "urlopen w_self_check_timeout (n_requests [Urlopen health_get])
      (self_check_request w_self_check_timeout default_args) = Inl SocketTimeout"
    by (simp add: eval_defs w_self_check_timeout_def)
  have n: "\<not> is_http_error SocketTimeout"
    by simp
  from self_check_transport_error_uncaught [OF p e n] p e show ?thesis
    unfolding h by (simp add: n_requests_def)
qed

text \<open>
  C2 as stated fails. The runtime is ready and the connection of the self-check request
  is refused: the run ends on the uncaught \<^verbatim>\<open>URLError\<close>, and its exit status is 1.
\<close>

theorem refused_self_check_does_not_exit_20:
  "main w_self_check_refused default_args =
     (Raised (URLError ''[Errno 111] Connection refused''),
      [Urlopen health_get, Urlopen self_check_get]) \<and>
   exit_status (fst (main w_self_check_refused default_args)) = 1 \<and>
   exit_status (fst (main w_self_check_refused default_args)) \<noteq> 20"
  by (simp add: eval_defs w_self_check_refused_def)

text \<open>
  C3, amended. For every self-check response with a status below 400 whose body parses
  as a JSON object, when \<^verbatim>\<open>json.dumps\<close> returns the report and standard output
  takes it: if \<^verbatim>\<open>ok\<close> is the boolean true the run exits 0; otherwise it exits 1, and
  when \<^verbatim>\<open>checks\<close> is a list it prints to standard error, in order, exactly one line
  \<^verbatim>\<open>[FAILED] <name>: <detail>\<close> for each element that is an object whose \<^verbatim>\<open>passed\<close> is not
  the boolean true, and no line for any other element. In the line the name is
  \<^verbatim>\<open>unknown\<close>, and the detail the empty string, when the key is missing or its value
  tests false in Python (null, false, zero, an empty string, list or object); any other
  value is shown as \<^verbatim>\<open>str\<close> shows it. The only other output is the report on
  standard output.
\<close>

theorem verdict_from_body:
  assumes "self_check_call w a = (Inr (status, raw), tr)"
    and "parse_json_or_none w raw = Inr (Some body)"
    and "status < 400"
    and "json_dumps w (JObject body) = Inr report"
    and "stdout_raises w report = None"
  shows "main w a =
     (if map_of body ''ok'' = Some (JBool True)
      then (SystemExit 0, tr @ [Stdout report])
      else (SystemExit 1, tr @ Stdout report # map Stderr (claimed_failures w body)))"
  using assms(1) verdict_report [OF assms(2,4,5), of status tr] gates_below_400 [OF assms(3)]
  by (simp add: main_def)

theorem verdict_from_body_witness:
  "self_check_call w_disk default_args =
     (Inr (200, disk_body), [Urlopen health_get, Urlopen self_check_get]) \<and>
   json_loads w_disk disk_body = Inr disk_report \<and>
   main w_disk default_args =
     (SystemExit 1,
      [Urlopen health_get, Urlopen self_check_get, Stdout ''<report: disk, mem>'',
       Stderr ''[FAILED] disk: low space''])"
proof -
  let ?body = "[(''ok'', JBool False),
      (''checks'',
       JList [JObject [(''name'', JStr ''disk''), (''passed'', JBool False),
                       (''detail'', JStr ''low space'')],
              JObject [(''name'', JStr ''mem''), (''passed'', JBool True)]])]"
  have c: "self_check_call w_disk default_args =
      (Inr (200, disk_body), [Urlopen health_get, Urlopen self_check_get])"
    by (simp add: eval_defs w_disk_def)
  have l: "json_loads w_disk disk_body = Inr disk_report"
    by (simp add: eval_defs w_disk_def)
  have p: "parse_json_or_none w_disk disk_body = Inr (Some ?body)"
    by (simp add: eval_defs w_disk_def)
  have s: "(200::int) < 400"
    by simp
  have d: "json_dumps w_disk (JObject ?body) = Inr ''<report: disk, mem>''"
    by (simp add: eval_defs w_disk_def)
  have o: "stdout_raises w_disk ''<report: disk, mem>'' = None"
    by (simp add: eval_defs w_disk_def)
  from verdict_from_body [OF c p s d o] c l show ?thesis
    by (simp add: claimed_failures_def claimed_lines_def claimed_name_def claimed_detail_def)
qed

text \<open>
  C3 as stated fails in two ways. A failing check whose name is the number 0 and whose
  detail is \<^verbatim>\<open>false\<close> has a name and a detail, neither missing nor an empty string, and
  is printed as \<^verbatim>\<open>[FAILED] unknown: \<close>, not with what \<^verbatim>\<open>str\<close> makes of them. And an
  object that says ok and holds a lone surrogate, answered with status 200, does not lead
  to exit 0: the \<^verbatim>\<open>print\<close> of the report raises \<^verbatim>\<open>UnicodeEncodeError\<close>, uncaught.
\<close>

theorem falsy_name_is_unknown_and_unprintable_report_fails:
  "map_of zero_check ''name'' = Some (JInt 0) \<and>
   map_of zero_check ''detail'' = Some (JBool False) \<and>
   main w_zero default_args =
     (SystemExit 1,
      [Urlopen health_get, Urlopen self_check_get, Stdout ''<report>'',
       Stderr ''[FAILED] unknown: '']) \<and>
   Stderr (''[FAILED] '' @ py_str w_zero (JInt 0) @ '': '' @ py_str w_zero (JBool False))
     \<notin> set (snd (main w_zero default_args)) \<and>
   json_loads w_surrogate surrogate_body = Inr surrogate_report \<and>
   main w_surrogate default_args =
     (Raised UnicodeEncodeError, [Urlopen health_get, Urlopen self_check_get]) \<and>
   exit_status (fst (main w_surrogate default_args)) \<noteq> 0"
  by (simp add: eval_defs w_zero_def w_surrogate_def)

text \<open>
  C4, amended. For every self-check response with a status of 400 or more whose body
  parses as a JSON object, when \<^verbatim>\<open>json.dumps\<close> returns the report and standard output
  takes it, the run prints the report, then a diagnostic naming the status code to
  standard error, and exits with code 20, whatever the body's \<^verbatim>\<open>ok\<close> is: the status is
  tested before \<^verbatim>\<open>ok\<close>, and after the report is printed.
\<close>

theorem status_gate_before_ok_gate:
  assumes "self_check_call w a = (Inr (status, raw), tr)"
    and "parse_json_or_none w raw = Inr (Some body)"
    and "status \<ge> 400"
    and "json_dumps w (JObject body) = Inr report"
    and "stdout_raises w report = None"
  shows "main w a =
     (SystemExit 20,
      tr @ [Stdout report, Stderr (''self-check endpoint returned HTTP '' @ str_int status)])"
  using assms(1,3) verdict_report [OF assms(2,4,5), of status tr]
  by (simp add: main_def gates_def)

theorem status_gate_before_ok_gate_witness:
  "self_check_call w_unavailable default_args =
     (Inr (503, ok_body), [Urlopen health_get, Urlopen self_check_get]) \<and>
   parse_json_or_none w_unavailable ok_body = Inr (Some [(''ok'', JBool True)]) \<and>
   main w_unavailable default_args =
     (SystemExit 20,
      [Urlopen health_get, Urlopen self_check_get, Stdout ''<report>'',
       Stderr ''self-check endpoint returned HTTP 503''])"
proof -
  have c: "self_check_call w_unavailable default_args =
      (Inr (503, ok_body), [Urlopen health_get, Urlopen self_check_get])"
    by (simp add: eval_defs w_unavailable_def)
  have p: "parse_json_or_none w_unavailable ok_body = Inr (Some [(''ok'', JBool True)])"
    by (simp add: eval_defs w_unavailable_def)
  have s: "(503::int) \<ge> 400"
    by simp
  have d: "json_dumps w_unavailable (JObject [(''ok'', JBool True)]) = Inr ''<report>''"
    by (simp add: eval_defs w_unavailable_def)
  have o: "stdout_raises w_unavailable ''<report>'' = None"
    by (simp add: eval_defs w_unavailable_def)
  have n: "str_int 503 = ''503''"
    by (simp add: str_int_def str_nat.simps)
  from status_gate_before_ok_gate [OF c p s d o] c p show ?thesis
    unfolding n by simp
qed

text \<open>
  C4 as stated fails. The self-check answers 503 with an object that holds a lone
  surrogate: line 79 prints the report before line 81 tests the status, the \<^verbatim>\<open>print\<close>
  raises \<^verbatim>\<open>UnicodeEncodeError\<close>, and the run ends on it with exit status 1 and no
  diagnostic naming the status.
\<close>

theorem unprintable_report_precedes_status_gate:
  "self_check_call w_surrogate_503 default_args =
     (Inr (503, surrogate_body), [Urlopen health_get, Urlopen self_check_get]) \<and>
   json_loads w_surrogate_503 surrogate_body = Inr surrogate_report \<and>
   main w_surrogate_503 default_args =
     (Raised UnicodeEncodeError, [Urlopen health_get, Urlopen self_check_get]) \<and>
   exit_status (fst (main w_surrogate_503 default_args)) = 1 \<and>
   Stderr ''self-check endpoint returned HTTP 503''
     \<notin> set (snd (main w_surrogate_503 default_args))"
  by (simp add: eval_defs w_surrogate_503_def)

text \<open>
  C5, amended. For every self-check response whose body \<^verbatim>\<open>json.loads\<close> rejects with
  \<^verbatim>\<open>JSONDecodeError\<close> or decodes to a value that is not an object, when standard
  output takes the raw body, the run prints the raw body unchanged to standard output,
  prints a diagnostic to standard error, and exits with code 20.
\<close>

theorem invalid_response_exits_20:
  assumes "self_check_call w a = (Inr (status, raw), tr)"
    and "json_loads w raw = Inl JSONDecodeError \<or>
         (\<exists>v. json_loads w raw = Inr v \<and> \<not> is_object v)"
    and "stdout_raises w raw = None"
  shows "main w a =
     (SystemExit 20, tr @ [Stdout raw, Stderr ''self-check response is not valid JSON''])"
proof -
  have "parse_json_or_none w raw = Inr None"
    using assms(2) by (auto simp: parse_json_or_none_def elim: is_object.elims)
  then show ?thesis
    using assms(1,3) by (simp add: main_def verdict_def print_stdout_def)
qed

theorem invalid_response_exits_20_witness:
  "self_check_call w_not_json default_args =
     (Inr (200, ''not json''), [Urlopen health_get, Urlopen self_check_get]) \<and>
   json_loads w_not_json ''not json'' = Inl JSONDecodeError \<and>
   main w_not_json default_args =
     (SystemExit 20,
      [Urlopen health_get, Urlopen self_check_get, Stdout ''not json'',
       Stderr ''self-check response is not valid JSON''])"
proof -
  have c: "self_check_call w_not_json default_args =
      (Inr (200, ''not json''), [Urlopen health_get, Urlopen self_check_get])"
    by (simp add: eval_defs w_not_json_def)
  have l: "json_loads w_not_json ''not json'' = Inl JSONDecodeError"
    by (simp add: eval_defs w_not_json_def)
  then have d: "json_loads w_not_json ''not json'' = Inl JSONDecodeError \<or>
      (\<exists>v. json_loads w_not_json ''not json'' = Inr v \<and> \<not> is_object v)"
    by simp
  have o: "stdout_raises w_not_json ''not json'' = None"
    by (simp add: eval_defs w_not_json_def)
  from invalid_response_exits_20 [OF c d o] c l show ?thesis
    by simp
qed

text \<open>
  C5 as stated fails. A body of 1200 opening brackets does not decode as JSON, but
  \<^verbatim>\<open>json.loads\<close> raises \<^verbatim>\<open>RecursionError\<close> on it, which line 41 does not catch:
  the run ends on it with exit status 1, and the raw body is not printed.
\<close>

theorem deep_body_does_not_exit_20:
  "self_check_call w_deep default_args =
     (Inr (200, deep_body), [Urlopen health_get, Urlopen self_check_get]) \<and>
   json_loads w_deep deep_body = Inl RecursionError \<and>
   main w_deep default_args =
     (Raised RecursionError, [Urlopen health_get, Urlopen self_check_get]) \<and>
   exit_status (fst (main w_deep default_args)) = 1 \<and>
   Stdout deep_body \<notin> set (snd (main w_deep default_args))"
  by (simp add: eval_defs w_deep_def length_deep_body)

text \<open>
  C8, amended. Whenever the self-check body parses as a JSON object, \<^verbatim>\<open>json.dumps\<close>
  returns the report and standard output takes it, the report (the object serialised
  again) is the first thing printed after the request, before the status and the
  \<^verbatim>\<open>ok\<close> of the response decide the exit: it is on standard output on the paths to
  exit 0, to exit 1 and to exit 20 for a status of 400 or more alike, and whatever follows
  it goes to standard error.
\<close>

theorem report_printed_before_gates:
  assumes "self_check_call w a = (Inr (status, raw), tr)"
    and "parse_json_or_none w raw = Inr (Some body)"
    and "json_dumps w (JObject body) = Inr report"
    and "stdout_raises w report = None"
  shows "\<exists>rest.
      main w a =
        (SystemExit
           (if status \<ge> 400 then 20
            else if map_of body ''ok'' = Some (JBool True) then 0
            else 1),
         tr @ Stdout report # rest) \<and>
      (\<forall>e\<in>set rest. is_stderr e)"
  using assms(1) verdict_report [OF assms(2,3,4), of status tr]
    gates_stderr [of w status body "tr @ [Stdout report]"]
  by (simp add: main_def)

theorem report_printed_before_gates_witness:
  "self_check_call w_passed default_args =
     (Inr (200, ok_body), [Urlopen health_get, Urlopen self_check_get]) \<and>
   parse_json_or_none w_passed ok_body = Inr (Some [(''ok'', JBool True)]) \<and>
   main w_passed default_args =
     (SystemExit 0, [Urlopen health_get, Urlopen self_check_get, Stdout ''<report>''])"
proof -
  have c: "self_check_call w_passed default_args =
      (Inr (200, ok_body), [Urlopen health_get, Urlopen self_check_get])"
    by (simp add: eval_defs w_passed_def)
  have p: "parse_json_or_none w_passed ok_body = Inr (Some [(''ok'', JBool True)])"
    by (simp add: eval_defs w_passed_def)
  have d: "json_dumps w_passed (JObject [(''ok'', JBool True)]) = Inr ''<report>''"
    by (simp add: eval_defs w_passed_def)
  have o: "stdout_raises w_passed ''<report>'' = None"
    by (simp add: eval_defs w_passed_def)
  from report_printed_before_gates [OF c p d o] obtain rest where
    "main w_passed default_args =
       (SystemExit 0, [Urlopen health_get, Urlopen self_check_get] @ Stdout ''<report>'' # rest)"
    by auto
  moreover have "main w_passed default_args =
      (SystemExit 0, [Urlopen health_get, Urlopen self_check_get, Stdout ''<report>''])"
    by (simp add: eval_defs w_passed_def)
  ultimately show ?thesis
    using c p by simp
qed

text \<open>
  C8 as stated fails. The self-check answers 200 with an object that holds a lone
  surrogate: the body parses as a JSON object, but the \<^verbatim>\<open>print\<close> of line 79 raises
  \<^verbatim>\<open>UnicodeEncodeError\<close> and the run ends with nothing printed.
\<close>

theorem unprintable_report_is_not_printed:
  "self_check_call w_surrogate default_args =
     (Inr (200, surrogate_body), [Urlopen health_get, Urlopen self_check_get]) \<and>
   parse_json_or_none w_surrogate surrogate_body =
     Inr (Some [(''ok'', JBool True), (''x'', JStr lone_surrogate)]) \<and>
   json_dumps w_surrogate surrogate_report = Inr surrogate_text \<and>
   stdout_raises w_surrogate surrogate_text = Some UnicodeEncodeError \<and>
   main w_surrogate default_args =
     (Raised UnicodeEncodeError, [Urlopen health_get, Urlopen self_check_get]) \<and>
   filter is_print (snd (main w_surrogate default_args)) = []"
  by (simp add: eval_defs w_surrogate_def)

end
